theory Spec2Isabelle
  imports Main "HOL-Library.Sublist"
begin

section \<open>The launcher's manifest data\<close>

text \<open>
  The repository holds four single-file variants of one Minecraft launcher:
  \<^verbatim>\<open>Client.py\<close>, \<^verbatim>\<open>CAT2.1.X.py\<close>, \<^verbatim>\<open>Cat4k.py\<close> and \<^verbatim>\<open>$CATCLIENT1.1.py\<close>.
  The first three share \<^verbatim>\<open>install_version\<close> and \<^verbatim>\<open>launch_game\<close> up to the
  differences written out below; the last one has the download helper with retries.
\<close>

datatype variant = Client | CAT21X | Cat4k

text \<open>
  A rule of a library or of a conditional argument, as the code reads it:
  \<^verbatim>\<open>rule["action"]\<close> (a required key) and \<^verbatim>\<open>rule.get("os")\<close>, a dictionary whose
  \<^verbatim>\<open>"name"\<close> is read with \<^verbatim>\<open>.get\<close>. The dictionary is an association list, so
  that the empty dictionary (falsy in Python) is told from one without a name.
\<close>

record rule =
  rule_action :: string
  rule_os :: "(string \<times> string) list option"

text \<open>The host, as \<^verbatim>\<open>platform.system()\<close> and \<^verbatim>\<open>is_arm64()\<close> report it.\<close>

record host =
  platform_system :: string
  arm64 :: bool

definition IS_MAC :: "host \<Rightarrow> bool" where
  "IS_MAC h = (platform_system h = ''Darwin'')"

text \<open>
  The OS name a rule is compared with. \<^verbatim>\<open>Client.py\<close> and \<^verbatim>\<open>CAT2.1.X.py\<close> compare
  with the literal \<^verbatim>\<open>"osx"\<close>; \<^verbatim>\<open>Cat4k.py\<close> with
  \<^verbatim>\<open>"osx" if IS_MAC else "windows" if platform.system() == "Windows" else "linux"\<close>.
\<close>

definition current_os :: "variant \<Rightarrow> host \<Rightarrow> string" where
  "current_os v h =
     (if v = Cat4k then
        (if IS_MAC h then ''osx''
         else if platform_system h = ''Windows'' then ''windows'' else ''linux'')
      else ''osx'')"

text \<open>
  The generator inside \<^verbatim>\<open>any(...)\<close>:
  \<^verbatim>\<open>rule["action"] == "allow" and (not rule.get("os") or rule["os"].get("name") == os)\<close>.
\<close>

definition rule_allows :: "string \<Rightarrow> rule \<Rightarrow> bool" where
  "rule_allows os r =
     (rule_action r = ''allow'' \<and>
      (case rule_os r of
         None \<Rightarrow> True
       | Some d \<Rightarrow> d = [] \<or> map_of d ''name'' = Some os))"

text \<open>
  \<^verbatim>\<open>allowed = not rules or any(... for rule in rules)\<close>
  (\<^verbatim>\<open>install_version\<close> in all three variants, \<^verbatim>\<open>lib_rules_allow\<close> in \<^verbatim>\<open>Cat4k.py\<close>).
\<close>

definition rules_allow :: "string \<Rightarrow> rule list \<Rightarrow> bool" where
  "rules_allow os rules = (rules = [] \<or> list_ex (rule_allows os) rules)"


section \<open>Paths, files and the network\<close>

text \<open>
  \<^verbatim>\<open>os.path.join\<close> of two components on POSIX (the hosts of \<^verbatim>\<open>Client.py\<close>): an
  absolute second component replaces the first; otherwise the two are joined by one
  separator. With more components it is applied from the left.
\<close>

definition path_join :: "string \<Rightarrow> string \<Rightarrow> string" where
  "path_join a b =
     (if b \<noteq> [] \<and> hd b = CHR ''/'' then b
      else if a = [] \<or> last a = CHR ''/'' then a @ b
      else a @ ''/'' @ b)"

type_synonym dict = "(string \<times> string) list"

text \<open>Python's truth value of \<^verbatim>\<open>d.get(k)\<close> for a string: present and not empty.\<close>

definition truthy :: "string option \<Rightarrow> bool" where
  "truthy x = (case x of None \<Rightarrow> False | Some s \<Rightarrow> s \<noteq> [])"

text \<open>
  \<^verbatim>\<open>s.replace(old, new)\<close> for a non-empty \<^verbatim>\<open>old\<close> (the one call has
  \<^verbatim>\<open>"${arch}"\<close>): every occurrence, left to right, without overlap.
\<close>

function str_replace :: "string \<Rightarrow> string \<Rightarrow> string \<Rightarrow> string" where
  "str_replace old new s =
     (if s = [] \<or> old = [] then s
      else if prefix old s then new @ str_replace old new (drop (length old) s)
      else hd s # str_replace old new (tl s))"
  by pat_completeness auto
termination
  by (relation "measure (\<lambda>(old, new, s). length s)") auto

declare str_replace.simps [simp del]

text \<open>
  A library entry: \<^verbatim>\<open>lib.get("rules", [])\<close>,
  \<^verbatim>\<open>lib.get("downloads", {}).get("artifact")\<close>, \<^verbatim>\<open>lib.get("natives")\<close> and
  \<^verbatim>\<open>lib.get("downloads", {}).get("classifiers", {})\<close>.
\<close>

record library =
  lib_rules :: "rule list option"
  lib_artifact :: "dict option"
  lib_natives :: "dict option"
  lib_classifiers :: "(string \<times> dict) list option"

text \<open>
  An entry of \<^verbatim>\<open>arguments.jvm\<close> or \<^verbatim>\<open>arguments.game\<close>: a string, or a dictionary
  with \<^verbatim>\<open>"rules"\<close> and a \<^verbatim>\<open>"value"\<close> that is a string or a list of strings.
\<close>

datatype arg_value = Single string | Multi "string list"

datatype arg = ArgStr string | ArgDict "rule list option" "arg_value option"

record arguments =
  args_jvm :: "arg list option"
  args_game :: "arg list option"

text \<open>The version descriptor (\<^verbatim>\<open>versions/<id>/<id>.json\<close>), by the keys the code reads.\<close>

record version_data =
  inheritsFrom :: "string option"
  downloads_client :: "dict option"
  libraries :: "library list option"
  assetIndex :: "dict option"
  arguments :: "arguments option"
  minecraftArguments :: "string option"
  mainClass :: "string option"
  version_type :: "string option"
  skinVersion :: "bool option"

text \<open>\<^verbatim>\<open>parent_data = {}\<close>, the value when the version has no parent.\<close>

definition no_parent :: version_data where
  "no_parent =
     \<lparr>inheritsFrom = None, downloads_client = None, libraries = None, assetIndex = None,
      arguments = None, minecraftArguments = None, mainClass = None, version_type = None,
      skinVersion = None\<rparr>"

text \<open>
  What a file holds. \<^verbatim>\<open>json.load\<close> of a descriptor path succeeds on a descriptor,
  \<^verbatim>\<open>idx_data["objects"]\<close> on an asset index (its entries in file order, each a
  dictionary read with \<^verbatim>\<open>info.get("hash")\<close>), \<^verbatim>\<open>zipfile.ZipFile\<close> on an archive
  (its member names); every other read raises.
\<close>

datatype content =
    Descriptor version_data
  | AssetIndex "(string \<times> dict) list"
  | Archive "string list"
  | Blob

text \<open>
  The exceptions \<^verbatim>\<open>install_version\<close> can end with:
  \<^verbatim>\<open>Exception("Version ... not found in Mojang manifest.")\<close>, the exception of
  \<^verbatim>\<open>download_file\<close>, those of opening and parsing a file, a missing key, and the
  interpreter's own when the call stack is used up.
\<close>

datatype error =
    RecursionError
  | VersionNotFound string
  | DownloadFailed string
  | FileNotFoundError string
  | JSONDecodeError string
  | BadZipFile string
  | KeyError string

text \<open>
  The environment of a run: which variant runs, the host, the installation root
  \<^verbatim>\<open>mc_dir\<close>, the global \<^verbatim>\<open>all_versions\<close> (id to descriptor URL) that
  \<^verbatim>\<open>load_version_manifest\<close> filled, what a GET of a URL returns (\<open>None\<close>: the
  transfer raises), and which paths can be created or written.
\<close>

record env =
  which :: variant
  the_host :: host
  mc_dir :: string
  all_versions :: "string \<Rightarrow> string option"
  net :: "string \<Rightarrow> content option"
  writable :: "string \<Rightarrow> bool"

text \<open>
  The state a run changes: the files on disk by path (\<^verbatim>\<open>os.path.isfile(p)\<close> is
  \<open>files st p \<noteq> None\<close>), the members extracted into the per-version natives
  directories (directory and member name), and the log of the network fetches made,
  each with its destination. The extracted members are kept apart from \<open>files\<close>:
  the model takes the natives directories, which are scratch space that every run
  rewrites, to hold none of the files the installer looks for or reads.
\<close>

record state =
  files :: "string \<Rightarrow> content option"
  extracted :: "(string \<times> string) list"
  fetches :: "(string \<times> string) list"

definition VERSIONS_DIR :: "env \<Rightarrow> string" where
  "VERSIONS_DIR e = path_join (mc_dir e) ''versions''"

definition ASSETS_DIR :: "env \<Rightarrow> string" where
  "ASSETS_DIR e = path_join (mc_dir e) ''assets''"

definition LIBRARIES_DIR :: "env \<Rightarrow> string" where
  "LIBRARIES_DIR e = path_join (mc_dir e) ''libraries''"

definition LIBRARIES_BASE_URL :: string where
  "LIBRARIES_BASE_URL = ''https://libraries.minecraft.net/''"

text \<open>\<^verbatim>\<open>Client.py\<close> has the plain-http asset host, the other two https.\<close>

definition ASSET_BASE_URL :: "env \<Rightarrow> string" where
  "ASSET_BASE_URL e =
     (if which e = Client then ''http://resources.download.minecraft.net/''
      else ''https://resources.download.minecraft.net/'')"

definition version_folder :: "env \<Rightarrow> string \<Rightarrow> string" where
  "version_folder e version_id = path_join (VERSIONS_DIR e) version_id"

definition version_json_path :: "env \<Rightarrow> string \<Rightarrow> string" where
  "version_json_path e version_id =
     path_join (version_folder e version_id) (version_id @ ''.json'')"

definition version_jar_path :: "env \<Rightarrow> string \<Rightarrow> string" where
  "version_jar_path e version_id =
     path_join (version_folder e version_id) (version_id @ ''.jar'')"

definition isfile :: "state \<Rightarrow> string \<Rightarrow> bool" where
  "isfile st p = (files st p \<noteq> None)"

text \<open>
  \<^verbatim>\<open>download_file(url, dest_path, ...)\<close> of \<^verbatim>\<open>Client.py\<close>, \<^verbatim>\<open>CAT2.1.X.py\<close> and
  \<^verbatim>\<open>Cat4k.py\<close>: one GET, copied into \<^verbatim>\<open>dest_path\<close>; any failure (of the transfer, or
  of creating the file) raises \<^verbatim>\<open>Exception("Failed to download ...")\<close>.
\<close>

definition download_file :: "env \<Rightarrow> string \<Rightarrow> string \<Rightarrow> state \<Rightarrow> error + state" where
  "download_file e url dest_path st =
     (case net e url of
        None \<Rightarrow> Inl (DownloadFailed url)
      | Some c \<Rightarrow>
          if writable e dest_path
          then Inr (st\<lparr>files := (files st)(dest_path \<mapsto> c),
                       fetches := fetches st @ [(url, dest_path)]\<rparr>)
          else Inl (DownloadFailed url))"

text \<open>\<^verbatim>\<open>with open(p, 'r') as f: json.load(f)\<close> where a descriptor is expected.\<close>

definition load_descriptor :: "state \<Rightarrow> string \<Rightarrow> error + version_data" where
  "load_descriptor st p =
     (case files st p of
        None \<Rightarrow> Inl (FileNotFoundError p)
      | Some (Descriptor d) \<Rightarrow> Inr d
      | Some _ \<Rightarrow> Inl (JSONDecodeError p))"


text \<open>
  The idiom every artifact goes through:
  \<^verbatim>\<open>if not os.path.isfile(p): download_file(url, p, ...)\<close>.
\<close>

definition fetch_if_missing :: "env \<Rightarrow> string \<Rightarrow> string \<Rightarrow> state \<Rightarrow> error + state" where
  "fetch_if_missing e url p st = (if isfile st p then Inr st else download_file e url p st)"

section \<open>install_version\<close>

text \<open>
  The descriptor is fetched only when it is not on disk
  (\<^verbatim>\<open>if not os.path.isfile(version_json_path)\<close>); a version that is not in
  \<^verbatim>\<open>all_versions\<close> raises.
\<close>

definition fetch_version_json :: "env \<Rightarrow> string \<Rightarrow> state \<Rightarrow> error + state" where
  "fetch_version_json e version_id st =
     (if isfile st (version_json_path e version_id) then Inr st
      else case all_versions e version_id of
             None \<Rightarrow> Inl (VersionNotFound version_id)
           | Some version_url \<Rightarrow>
               download_file e version_url (version_json_path e version_id) st)"

text \<open>
  \<^verbatim>\<open>client_info = version_data.get("downloads", {}).get("client")\<close>, then
  \<^verbatim>\<open>if client_info and not os.path.isfile(version_jar_path)\<close> and, inside,
  \<^verbatim>\<open>if client_url: download_file(...)\<close>: a fetch when all three hold.
\<close>

definition install_client_jar :: "env \<Rightarrow> string \<Rightarrow> version_data \<Rightarrow> state \<Rightarrow> error + state" where
  "install_client_jar e version_id version_data st =
     (case downloads_client version_data of
        None \<Rightarrow> Inr st
      | Some client_info \<Rightarrow>
          if client_info = [] then Inr st
          else
            (case map_of client_info ''url'' of
               None \<Rightarrow> Inr st
             | Some client_url \<Rightarrow>
                 if client_url = [] then Inr st
                 else fetch_if_missing e client_url (version_jar_path e version_id) st))"

text \<open>\<^verbatim>\<open>artifact.get("url") or LIBRARIES_BASE_URL + artifact["path"]\<close>.\<close>

definition artifact_url :: "dict \<Rightarrow> string \<Rightarrow> string" where
  "artifact_url artifact p =
     (case map_of artifact ''url'' of
        None \<Rightarrow> LIBRARIES_BASE_URL @ p
      | Some u \<Rightarrow> if u \<noteq> [] then u else LIBRARIES_BASE_URL @ p)"

definition install_library_artifact :: "env \<Rightarrow> library \<Rightarrow> state \<Rightarrow> error + state" where
  "install_library_artifact e lib st =
     (case lib_artifact lib of
        None \<Rightarrow> Inr st
      | Some artifact \<Rightarrow>
          (case map_of artifact ''path'' of
             None \<Rightarrow> Inr st
           | Some p \<Rightarrow>
               if p = [] then Inr st
               else fetch_if_missing e (artifact_url artifact p)
                      (path_join (LIBRARIES_DIR e) p) st))"

text \<open>
  The natives key. \<^verbatim>\<open>Client.py\<close> and \<^verbatim>\<open>CAT2.1.X.py\<close>:
  \<^verbatim>\<open>'natives-osx-arm64' if is_arm64() and 'natives-osx-arm64' in classifiers
   else natives_info.get('osx', '').replace("${arch}", "64")\<close>.
  \<^verbatim>\<open>Cat4k.py\<close> asks \<^verbatim>\<open>IS_MAC\<close> too, reads the key of the current OS without a
  default (so it can be \<^verbatim>\<open>None\<close>) and replaces in it when it is a non-empty string.
\<close>

definition native_key :: "variant \<Rightarrow> host \<Rightarrow> dict \<Rightarrow> (string \<times> dict) list \<Rightarrow> string option" where
  "native_key v h natives_info classifiers =
     (if v = Cat4k then
        (if IS_MAC h \<and> arm64 h \<and> map_of classifiers ''natives-osx-arm64'' \<noteq> None
         then Some ''natives-osx-arm64''
         else map_option (str_replace ''${arch}'' ''64'')
                (map_of natives_info (current_os Cat4k h)))
      else
        Some (if arm64 h \<and> map_of classifiers ''natives-osx-arm64'' \<noteq> None
              then ''natives-osx-arm64''
              else str_replace ''${arch}'' ''64''
                     (case map_of natives_info ''osx'' of None \<Rightarrow> [] | Some k \<Rightarrow> k)))"

text \<open>
  \<^verbatim>\<open>zf.extract(member, natives_dir)\<close> for every member that neither starts with
  \<^verbatim>\<open>META-INF/\<close> nor ends with a slash. A file that is no archive raises; only
  \<^verbatim>\<open>Cat4k.py\<close> catches that (and prints a warning).
\<close>

definition extract_natives :: "env \<Rightarrow> string \<Rightarrow> string \<Rightarrow> state \<Rightarrow> error + state" where
  "extract_natives e natives_dir native_path st =
     (case files st native_path of
        Some (Archive members) \<Rightarrow>
          Inr (st\<lparr>extracted := extracted st @
                 map (Pair natives_dir)
                   (filter (\<lambda>member. \<not> prefix ''META-INF/'' member \<and>
                                      \<not> (member \<noteq> [] \<and> last member = CHR ''/'')) members)\<rparr>)
      | _ \<Rightarrow> if which e = Cat4k then Inr st else Inl (BadZipFile native_path))"

definition install_library_natives :: "env \<Rightarrow> string \<Rightarrow> library \<Rightarrow> state \<Rightarrow> error + state" where
  "install_library_natives e version_id lib st =
     (case lib_natives lib of
        None \<Rightarrow> Inr st
      | Some natives_info \<Rightarrow>
          (case lib_classifiers lib of
             None \<Rightarrow> Inr st
           | Some classifiers \<Rightarrow>
               if natives_info = [] \<or> classifiers = [] then Inr st
               else
                 (case native_key (which e) (the_host e) natives_info classifiers of
                    None \<Rightarrow> Inr st
                  | Some k \<Rightarrow>
                      if which e = Cat4k \<and> k = [] then Inr st
                      else
                        (case map_of classifiers k of
                           None \<Rightarrow> Inr st
                         | Some native_artifact \<Rightarrow>
                             (case map_of native_artifact ''path'' of
                                None \<Rightarrow> Inl (KeyError ''path'')
                              | Some p \<Rightarrow>
                                  (case fetch_if_missing e (artifact_url native_artifact p)
                                          (path_join (LIBRARIES_DIR e) p) st of
                                     Inl x \<Rightarrow> Inl x
                                   | Inr st1 \<Rightarrow>
                                       extract_natives e
                                         (path_join (version_folder e version_id) ''natives'')
                                         (path_join (LIBRARIES_DIR e) p) st1))))))"

text \<open>One round of \<^verbatim>\<open>for i, lib in enumerate(libraries)\<close>.\<close>

definition install_library :: "env \<Rightarrow> string \<Rightarrow> library \<Rightarrow> state \<Rightarrow> error + state" where
  "install_library e version_id lib st =
     (if \<not> rules_allow (current_os (which e) (the_host e))
             (case lib_rules lib of None \<Rightarrow> [] | Some rules \<Rightarrow> rules)
      then Inr st
      else case install_library_artifact e lib st of
             Inl x \<Rightarrow> Inl x
           | Inr st1 \<Rightarrow> install_library_natives e version_id lib st1)"

fun install_libraries :: "env \<Rightarrow> string \<Rightarrow> library list \<Rightarrow> state \<Rightarrow> error + state" where
  "install_libraries e version_id [] st = Inr st"
| "install_libraries e version_id (lib # libs) st =
     (case install_library e version_id lib st of
        Inl x \<Rightarrow> Inl x
      | Inr st1 \<Rightarrow> install_libraries e version_id libs st1)"

text \<open>
  \<^verbatim>\<open>libraries = version_data.get("libraries", []) + parent_data.get("libraries", [])\<close>:
  the version's own entries first, then its parent's.
\<close>

definition get_libraries :: "version_data \<Rightarrow> library list" where
  "get_libraries d = (case libraries d of None \<Rightarrow> [] | Some ls \<Rightarrow> ls)"

definition merged_libraries :: "version_data \<Rightarrow> version_data \<Rightarrow> library list" where
  "merged_libraries version_data parent_data =
     get_libraries version_data @ get_libraries parent_data"

text \<open>
  \<^verbatim>\<open>asset_path = os.path.join(ASSETS_DIR, "objects", subdir, hash_val)\<close> with
  \<^verbatim>\<open>subdir = hash_val[:2]\<close>.
\<close>

definition asset_path :: "env \<Rightarrow> string \<Rightarrow> string" where
  "asset_path e hash_val =
     path_join (path_join (path_join (ASSETS_DIR e) ''objects'') (take 2 hash_val)) hash_val"

definition asset_url :: "env \<Rightarrow> string \<Rightarrow> string" where
  "asset_url e hash_val = ASSET_BASE_URL e @ take 2 hash_val @ ''/'' @ hash_val"

text \<open>
  One round of \<^verbatim>\<open>for asset_name, info in idx_data["objects"].items()\<close>:
  \<^verbatim>\<open>hash_val = info.get("hash")\<close>, \<^verbatim>\<open>if hash_val:\<close>,
  \<^verbatim>\<open>if not os.path.isfile(asset_path): download_file(...)\<close>.
\<close>

definition install_asset :: "env \<Rightarrow> string \<times> dict \<Rightarrow> state \<Rightarrow> error + state" where
  "install_asset e entry st =
     (case map_of (snd entry) ''hash'' of
        None \<Rightarrow> Inr st
      | Some hash_val \<Rightarrow>
          if hash_val = [] then Inr st
          else fetch_if_missing e (asset_url e hash_val) (asset_path e hash_val) st)"

fun install_assets :: "env \<Rightarrow> (string \<times> dict) list \<Rightarrow> state \<Rightarrow> error + state" where
  "install_assets e [] st = Inr st"
| "install_assets e (entry # entries) st =
     (case install_asset e entry st of
        Inl x \<Rightarrow> Inl x
      | Inr st1 \<Rightarrow> install_assets e entries st1)"

text \<open>
  \<^verbatim>\<open>asset_index_info = version_data.get("assetIndex") or parent_data.get("assetIndex")\<close>;
  a non-empty dictionary is truthy.
\<close>

definition asset_index_info :: "version_data \<Rightarrow> version_data \<Rightarrow> dict option" where
  "asset_index_info version_data parent_data =
     (case assetIndex version_data of
        None \<Rightarrow> assetIndex parent_data
      | Some d \<Rightarrow> if d \<noteq> [] then Some d else assetIndex parent_data)"

definition index_path :: "env \<Rightarrow> string \<Rightarrow> string" where
  "index_path e idx_id =
     path_join (path_join (ASSETS_DIR e) ''indexes'') (idx_id @ ''.json'')"

definition install_asset_index :: "env \<Rightarrow> version_data \<Rightarrow> version_data \<Rightarrow> state \<Rightarrow> error + state" where
  "install_asset_index e version_data parent_data st =
     (case asset_index_info version_data parent_data of
        None \<Rightarrow> Inr st
      | Some info \<Rightarrow>
          if info = [] then Inr st
          else
            (case map_of info ''id'' of
               None \<Rightarrow> Inl (KeyError ''id'')
             | Some idx_id \<Rightarrow>
                 (case map_of info ''url'' of
                    None \<Rightarrow> Inl (KeyError ''url'')
                  | Some idx_url \<Rightarrow>
                      (case fetch_if_missing e idx_url (index_path e idx_id) st of
                         Inl x \<Rightarrow> Inl x
                       | Inr st1 \<Rightarrow>
                           (case files st1 (index_path e idx_id) of
                              None \<Rightarrow> Inl (FileNotFoundError (index_path e idx_id))
                            | Some (AssetIndex objects) \<Rightarrow> install_assets e objects st1
                            | Some _ \<Rightarrow> Inl (JSONDecodeError (index_path e idx_id)))))))"

text \<open>
  The last step of \<^verbatim>\<open>install_version\<close> in \<^verbatim>\<open>CAT2.1.X.py\<close> and \<^verbatim>\<open>Cat4k.py\<close>
  (\<^verbatim>\<open>Client.py\<close> has none): inside \<^verbatim>\<open>try\<close>, open the descriptor \<^verbatim>\<open>'r+'\<close>, and
  \<^verbatim>\<open>if not data.get("skinVersion", False)\<close> set it to \<^verbatim>\<open>True\<close> and rewrite the file.
  Every exception is caught and printed, so a file that cannot be opened for writing is
  left as it is.
\<close>

definition patch_skinVersion :: "env \<Rightarrow> string \<Rightarrow> state \<Rightarrow> state" where
  "patch_skinVersion e p st =
     (if which e = Client then st
      else case files st p of
             Some (Descriptor data) \<Rightarrow>
               if writable e p \<and> skinVersion data \<noteq> Some True
               then st\<lparr>files := (files st)(p \<mapsto> Descriptor (data\<lparr>skinVersion := Some True\<rparr>))\<rparr>
               else st
           | _ \<Rightarrow> st)"

text \<open>What \<^verbatim>\<open>install_version\<close> does once it holds both descriptors.\<close>

definition install_own :: "env \<Rightarrow> string \<Rightarrow> version_data \<Rightarrow> version_data \<Rightarrow> state \<Rightarrow> error + state" where
  "install_own e version_id version_data parent_data st =
     (case install_client_jar e version_id version_data st of
        Inl x \<Rightarrow> Inl x
      | Inr st1 \<Rightarrow>
          (case install_libraries e version_id (merged_libraries version_data parent_data) st1 of
             Inl x \<Rightarrow> Inl x
           | Inr st2 \<Rightarrow>
               (case install_asset_index e version_data parent_data st2 of
                  Inl x \<Rightarrow> Inl x
                | Inr st3 \<Rightarrow> Inr (patch_skinVersion e (version_json_path e version_id) st3))))"

text \<open>
  \<^verbatim>\<open>install_version(version_id, ...)\<close>. It calls itself on \<^verbatim>\<open>inheritsFrom\<close> with no
  visited set and no depth counter of its own; the first argument here is the call depth
  the interpreter still allows, and a call beyond it raises \<^verbatim>\<open>RecursionError\<close>. The
  status callback only reports progress and is left out.
\<close>

fun install_version :: "env \<Rightarrow> nat \<Rightarrow> string \<Rightarrow> state \<Rightarrow> error + state" where
  "install_version e 0 version_id st = Inl RecursionError"
| "install_version e (Suc depth) version_id st =
     (case fetch_version_json e version_id st of
        Inl x \<Rightarrow> Inl x
      | Inr st1 \<Rightarrow>
          (case load_descriptor st1 (version_json_path e version_id) of
             Inl x \<Rightarrow> Inl x
           | Inr version_data \<Rightarrow>
               (case inheritsFrom version_data of
                  None \<Rightarrow> install_own e version_id version_data no_parent st1
                | Some parent_id \<Rightarrow>
                    if parent_id = [] then install_own e version_id version_data no_parent st1
                    else
                      (case install_version e depth parent_id st1 of
                         Inl x \<Rightarrow> Inl x
                       | Inr st2 \<Rightarrow>
                           (case load_descriptor st2 (version_json_path e parent_id) of
                              Inl x \<Rightarrow> Inl x
                            | Inr parent_data \<Rightarrow>
                                install_own e version_id version_data parent_data st2)))))"

section \<open>launch_game: the argument lists\<close>

text \<open>
  \<^verbatim>\<open>args_data = vdata.get("arguments", {})\<close> and the reads \<^verbatim>\<open>.get("jvm")\<close>,
  \<^verbatim>\<open>.get("game")\<close> on it.
\<close>

definition get_jvm :: "version_data \<Rightarrow> arg list option" where
  "get_jvm d = (case arguments d of None \<Rightarrow> None | Some a \<Rightarrow> args_jvm a)"

definition get_game :: "version_data \<Rightarrow> arg list option" where
  "get_game d = (case arguments d of None \<Rightarrow> None | Some a \<Rightarrow> args_game a)"

definition or_empty :: "'a list option \<Rightarrow> 'a list" where
  "or_empty x = (case x of None \<Rightarrow> [] | Some xs \<Rightarrow> xs)"

text \<open>\<^verbatim>\<open>str.split()\<close>: the maximal runs of non-whitespace characters.\<close>

definition is_space :: "char \<Rightarrow> bool" where
  "is_space c =
     (c \<in> set [CHR '' '', CHR 0x09, CHR 0x0A, CHR 0x0B, CHR 0x0C, CHR 0x0D,
               CHR 0x1C, CHR 0x1D, CHR 0x1E, CHR 0x1F])"

fun split_ws :: "string \<Rightarrow> string \<Rightarrow> string list" where
  "split_ws w [] = (if w = [] then [] else [w])"
| "split_ws w (c # cs) =
     (if is_space c then (if w = [] then split_ws [] cs else w # split_ws [] cs)
      else split_ws (w @ [c]) cs)"

definition py_split :: "string \<Rightarrow> string list" where
  "py_split s = split_ws [] s"

text \<open>
  \<^verbatim>\<open>Client.py\<close> and \<^verbatim>\<open>CAT2.1.X.py\<close>:
  \<^verbatim>\<open>raw_jvm_args = parent_args_data.get("jvm", []) + args_data.get("jvm", [])\<close>.
  \<^verbatim>\<open>Cat4k.py\<close>:
  \<^verbatim>\<open>raw_jvm_args = args_data.get("jvm", parent_args_data.get("jvm", []))\<close>, the
  version's own list when it has one and the parent's only otherwise.
\<close>

definition raw_jvm_args :: "variant \<Rightarrow> version_data \<Rightarrow> version_data \<Rightarrow> arg list" where
  "raw_jvm_args v vdata parent_data =
     (if v = Cat4k then
        (case get_jvm vdata of
           Some own \<Rightarrow> own
         | None \<Rightarrow> or_empty (get_jvm parent_data))
      else or_empty (get_jvm parent_data) @ or_empty (get_jvm vdata))"

text \<open>
  \<^verbatim>\<open>Client.py\<close> and \<^verbatim>\<open>CAT2.1.X.py\<close>:
  \<^verbatim>\<open>parent_args_data.get("game", []) + args_data.get("game", [])
   or vdata.get("minecraftArguments", "").split()\<close>.
  \<^verbatim>\<open>Cat4k.py\<close>: \<^verbatim>\<open>args_data.get("game", parent_args_data.get("game", []))\<close>, replaced by
  the split legacy string \<^verbatim>\<open>if not raw_game_args and "minecraftArguments" in vdata\<close>.
\<close>

definition legacy_game_args :: "version_data \<Rightarrow> arg list" where
  "legacy_game_args vdata =
     map ArgStr (py_split (case minecraftArguments vdata of None \<Rightarrow> [] | Some s \<Rightarrow> s))"

definition raw_game_args :: "variant \<Rightarrow> version_data \<Rightarrow> version_data \<Rightarrow> arg list" where
  "raw_game_args v vdata parent_data =
     (if v = Cat4k then
        (let own = (case get_game vdata of
                      Some own \<Rightarrow> own
                    | None \<Rightarrow> or_empty (get_game parent_data))
         in if own = [] \<and> minecraftArguments vdata \<noteq> None then legacy_game_args vdata
            else own)
      else
        (let both = or_empty (get_game parent_data) @ or_empty (get_game vdata)
         in if both = [] then legacy_game_args vdata else both))"

section \<open>launch_game: placeholder substitution\<close>

text \<open>
  \<^verbatim>\<open>s.format(**kw)\<close>, read left to right as CPython does: \<^verbatim>\<open>{{\<close> and \<^verbatim>\<open>}}\<close> are
  literal braces, a lone \<^verbatim>\<open>}\<close> or an unclosed \<^verbatim>\<open>{\<close> raises \<^verbatim>\<open>ValueError\<close>, as does a
  \<^verbatim>\<open>{\<close> inside a field name; a field \<^verbatim>\<open>{name}\<close> is looked up in the keyword
  arguments and raises \<^verbatim>\<open>KeyError(name)\<close> when it is missing; an empty or numeric
  field asks for a positional argument, of which there are none (\<^verbatim>\<open>IndexError\<close>).
  A dollar sign is an ordinary character. The second argument is the field name read so
  far (\<open>None\<close> outside a field). Fields with an attribute, an index, a conversion or a
  format specification (the characters \<^verbatim>\<open>. [ ! :\<close>) are beyond this model and are
  reported as \<open>NotModelled\<close>; no statement below rests on them.
\<close>

datatype format_error = FValueError | FKeyError string | FIndexError | NotModelled

definition is_digit :: "char \<Rightarrow> bool" where
  "is_digit c = (c \<in> set ''0123456789'')"

definition lookup_field :: "dict \<Rightarrow> string \<Rightarrow> format_error + string" where
  "lookup_field kw f =
     (if f = [] \<or> list_all is_digit f then Inl FIndexError
      else case map_of kw f of None \<Rightarrow> Inl (FKeyError f) | Some v \<Rightarrow> Inr v)"

fun py_format :: "dict \<Rightarrow> string option \<Rightarrow> string \<Rightarrow> format_error + string" where
  "py_format kw None [] = Inr []"
| "py_format kw None [c] =
     (if c = CHR ''{'' \<or> c = CHR ''}'' then Inl FValueError else Inr [c])"
| "py_format kw None (c # c' # cs) =
     (if c = CHR ''{'' then
        (if c' = CHR ''{'' then
           (case py_format kw None cs of Inl x \<Rightarrow> Inl x | Inr r \<Rightarrow> Inr (CHR ''{'' # r))
         else py_format kw (Some []) (c' # cs))
      else if c = CHR ''}'' then
        (if c' = CHR ''}'' then
           (case py_format kw None cs of Inl x \<Rightarrow> Inl x | Inr r \<Rightarrow> Inr (CHR ''}'' # r))
         else Inl FValueError)
      else (case py_format kw None (c' # cs) of Inl x \<Rightarrow> Inl x | Inr r \<Rightarrow> Inr (c # r)))"
| "py_format kw (Some f) [] = Inl FValueError"
| "py_format kw (Some f) (c # cs) =
     (if c = CHR ''}'' then
        (case lookup_field kw f of
           Inl x \<Rightarrow> Inl x
         | Inr v \<Rightarrow>
             (case py_format kw None cs of Inl x \<Rightarrow> Inl x | Inr r \<Rightarrow> Inr (v @ r)))
      else if c = CHR ''{'' then Inl FValueError
      else if c \<in> set ''.[!:'' then Inl NotModelled
      else py_format kw (Some (f @ [c])) cs)"

definition str_format :: "dict \<Rightarrow> string \<Rightarrow> format_error + string" where
  "str_format kw s = py_format kw None s"

text \<open>
  An account record of \<^verbatim>\<open>launcher_accounts.json\<close>, by the keys the code reads; a
  key that is missing (or \<^verbatim>\<open>null\<close>) is \<open>None\<close>.
\<close>

record account =
  acc_type :: "string option"
  acc_username :: "string option"
  acc_uuid :: "string option"
  acc_token :: "string option"
  acc_client :: "string option"

text \<open>
  What \<^verbatim>\<open>launch_game\<close> has at hand when it builds the table: the version id, the
  effective game directory, \<^verbatim>\<open>os.path.abspath(ASSETS_DIR)\<close>, the absolute natives
  directory, \<^verbatim>\<open>os.pathsep\<close> and the Lunar flag.
\<close>

record launch =
  l_version_id :: string
  l_game_dir :: string
  l_assets_root :: string
  l_natives_dir :: string
  l_pathsep :: string
  l_lunar :: bool

text \<open>
  \<^verbatim>\<open>(vdata.get("assetIndex") or parent_data.get("assetIndex", {})).get("id", "legacy")\<close>.
\<close>

definition assets_index_name :: "version_data \<Rightarrow> version_data \<Rightarrow> string" where
  "assets_index_name vdata parent_data =
     (case asset_index_info vdata parent_data of
        None \<Rightarrow> ''legacy''
      | Some d \<Rightarrow> (case map_of d ''id'' of None \<Rightarrow> ''legacy'' | Some i \<Rightarrow> i))"

text \<open>
  The table \<^verbatim>\<open>replacements\<close>. In \<^verbatim>\<open>Client.py\<close> and \<^verbatim>\<open>CAT2.1.X.py\<close> its keys are
  written with the dollar sign and the braces (\<^verbatim>\<open>"${auth_player_name}"\<close>); in
  \<^verbatim>\<open>Cat4k.py\<close> they are the bare names (\<^verbatim>\<open>"auth_player_name"\<close>).
  \<^verbatim>\<open>account["username"]\<close> and its like raise \<^verbatim>\<open>KeyError\<close> on a missing key.
\<close>

definition table_key :: "variant \<Rightarrow> string \<Rightarrow> string" where
  "table_key v name = (if v = Cat4k then name else ''${'' @ name @ ''}'')"

definition replacement_table ::
  "variant \<Rightarrow> string \<Rightarrow> string \<Rightarrow> string \<Rightarrow> string \<Rightarrow> launch \<Rightarrow> version_data \<Rightarrow>
   version_data \<Rightarrow> dict" where
  "replacement_table v username uuid access_token ty l vdata parent_data =
     map (\<lambda>(k, x). (table_key v k, x))
       [(''auth_player_name'', username),
        (''version_name'', l_version_id l),
        (''game_directory'', l_game_dir l),
        (''assets_root'', l_assets_root l),
        (''assets_index_name'', assets_index_name vdata parent_data),
        (''auth_uuid'', uuid),
        (''auth_access_token'', access_token),
        (''user_type'', if ty = ''microsoft'' then ''msa'' else ''legacy''),
        (''version_type'', (case version_type vdata of None \<Rightarrow> ''release'' | Some t \<Rightarrow> t)),
        (''natives_directory'', l_natives_dir l),
        (''classpath_separator'', l_pathsep l),
        (''launcher_name'',
           if v = Client then (if l_lunar l then ''LunarClient'' else ''CatClient-M1'')
           else if v = CAT21X then
             (if l_lunar l \<and> ty \<noteq> ''offline'' then ''LunarClient'' else ''CatClient'')
           else (if l_lunar l then ''LunarClient'' else ''CatClient'')),
        (''launcher_version'', if v = Client then ''1.2'' else ''0.1.0'')]"

text \<open>
  The reads of the account in the order the dictionary display makes them;
  \<^verbatim>\<open>CAT2.1.X.py\<close> has
  \<^verbatim>\<open>account["token"] if account["type"] != "offline" else "0"\<close> for the token.
\<close>

definition replacements ::
  "variant \<Rightarrow> account \<Rightarrow> launch \<Rightarrow> version_data \<Rightarrow> version_data \<Rightarrow> format_error + dict" where
  "replacements v account l vdata parent_data =
     (case acc_username account of
        None \<Rightarrow> Inl (FKeyError ''username'')
      | Some username \<Rightarrow>
          (case acc_uuid account of
             None \<Rightarrow> Inl (FKeyError ''uuid'')
           | Some uuid \<Rightarrow>
               if v = CAT21X then
                 (case acc_type account of
                    None \<Rightarrow> Inl (FKeyError ''type'')
                  | Some ty \<Rightarrow>
                      if ty = ''offline''
                      then Inr (replacement_table v username uuid ''0'' ty l vdata parent_data)
                      else
                        (case acc_token account of
                           None \<Rightarrow> Inl (FKeyError ''token'')
                         | Some token \<Rightarrow>
                             Inr (replacement_table v username uuid token ty l vdata
                                    parent_data)))
               else
                 (case acc_token account of
                    None \<Rightarrow> Inl (FKeyError ''token'')
                  | Some token \<Rightarrow>
                      (case acc_type account of
                         None \<Rightarrow> Inl (FKeyError ''type'')
                       | Some ty \<Rightarrow>
                           Inr (replacement_table v username uuid token ty l vdata
                                  parent_data)))))"

text \<open>
  The keyword arguments of one \<^verbatim>\<open>format\<close> call on a literal token:
  \<^verbatim>\<open>**replacements\<close> in \<^verbatim>\<open>Client.py\<close> and \<^verbatim>\<open>CAT2.1.X.py\<close>,
  \<^verbatim>\<open>**{k: v for k, v in replacements.items() if k in arg}\<close> in \<^verbatim>\<open>Cat4k.py\<close>.
\<close>

definition literal_kwargs :: "variant \<Rightarrow> dict \<Rightarrow> string \<Rightarrow> dict" where
  "literal_kwargs v table a =
     (if v = Cat4k then filter (\<lambda>(k, x). sublist k a) table else table)"

text \<open>
  The values of a conditional token inside \<^verbatim>\<open>Cat4k.py\<close>'s \<^verbatim>\<open>try\<close>: each is
  formatted and appended in turn; a \<^verbatim>\<open>KeyError\<close> ends the token with what was
  appended so far (the handler prints a warning), any other exception leaves
  \<^verbatim>\<open>launch_game\<close>.
\<close>

fun format_until_KeyError :: "dict \<Rightarrow> string list \<Rightarrow> format_error + string list" where
  "format_until_KeyError table [] = Inr []"
| "format_until_KeyError table (x # xs) =
     (case str_format table x of
        Inl (FKeyError k) \<Rightarrow> Inr []
      | Inl err \<Rightarrow> Inl err
      | Inr s \<Rightarrow>
          (case format_until_KeyError table xs of
             Inl err \<Rightarrow> Inl err
           | Inr r \<Rightarrow> Inr (s # r)))"

definition values_of :: "arg_value \<Rightarrow> string list" where
  "values_of x = (case x of Single s \<Rightarrow> [s] | Multi xs \<Rightarrow> xs)"

text \<open>
  What one entry of \<^verbatim>\<open>raw_game_args\<close> adds to \<^verbatim>\<open>game_args\<close>.
  \<^verbatim>\<open>Client.py\<close> and \<^verbatim>\<open>CAT2.1.X.py\<close> (a list comprehension, nothing is caught):
  \<^verbatim>\<open>arg.format(**replacements) if isinstance(arg, str)
   else arg["value"][0].format(**replacements)\<close>, over the entries that are strings or
  dictionaries with a \<^verbatim>\<open>"value"\<close>; \<^verbatim>\<open>value[0]\<close> is the first element of a list and
  the first character of a string. \<^verbatim>\<open>Cat4k.py\<close> (a loop): a string whose
  \<^verbatim>\<open>format\<close> raises \<^verbatim>\<open>KeyError\<close> is skipped with a warning; a dictionary with a
  \<^verbatim>\<open>"value"\<close> adds its formatted values.
\<close>

definition game_arg :: "variant \<Rightarrow> dict \<Rightarrow> arg \<Rightarrow> format_error + string list" where
  "game_arg v table a =
     (case a of
        ArgStr s \<Rightarrow>
          (case str_format (literal_kwargs v table s) s of
             Inl (FKeyError k) \<Rightarrow> if v = Cat4k then Inr [] else Inl (FKeyError k)
           | Inl err \<Rightarrow> Inl err
           | Inr r \<Rightarrow> Inr [r])
      | ArgDict rules None \<Rightarrow> Inr []
      | ArgDict rules (Some x) \<Rightarrow>
          if v = Cat4k then format_until_KeyError table (values_of x)
          else
            (case x of
               Single s \<Rightarrow>
                 (case s of
                    [] \<Rightarrow> Inl FIndexError
                  | c # cs \<Rightarrow> map_sum id (\<lambda>r. [r]) (str_format table [c]))
             | Multi xs \<Rightarrow>
                 (case xs of
                    [] \<Rightarrow> Inl FIndexError
                  | y # ys \<Rightarrow> map_sum id (\<lambda>r. [r]) (str_format table y))))"

fun game_args :: "variant \<Rightarrow> dict \<Rightarrow> arg list \<Rightarrow> format_error + string list" where
  "game_args v table [] = Inr []"
| "game_args v table (a # as) =
     (case game_arg v table a of
        Inl err \<Rightarrow> Inl err
      | Inr xs \<Rightarrow>
          (case game_args v table as of
             Inl err \<Rightarrow> Inl err
           | Inr ys \<Rightarrow> Inr (xs @ ys)))"

text \<open>
  The game arguments \<^verbatim>\<open>launch_game\<close> puts on the command line after the main class,
  before the optional \<^verbatim>\<open>--server\<close> and \<^verbatim>\<open>--port\<close>.
\<close>

definition launch_game_args ::
  "variant \<Rightarrow> account \<Rightarrow> launch \<Rightarrow> version_data \<Rightarrow> version_data \<Rightarrow> format_error + string list" where
  "launch_game_args v account l vdata parent_data =
     (case replacements v account l vdata parent_data of
        Inl err \<Rightarrow> Inl err
      | Inr table \<Rightarrow> game_args v table (raw_game_args v vdata parent_data))"

section \<open>The download helper with retries\<close>

text \<open>
  \<^verbatim>\<open>download_file(url, dest_path, description, ssl_verify, retries=3)\<close> of
  \<^verbatim>\<open>$CATCLIENT1.1.py\<close>. What one try of the transfer does is given from outside, by
  the number of the try: it completes and the file holds the content; it raises
  \<^verbatim>\<open>urllib.error.HTTPError\<close>; it raises \<^verbatim>\<open>PermissionError\<close>; it raises another
  exception before the file is opened; or it breaks off after the file was opened,
  leaving a partial file.
\<close>

datatype transfer =
    Transferred content
  | HTTPError
  | PermissionError
  | OtherException
  | Interrupted content

record disk =
  d_files :: "string \<Rightarrow> content option"
  slept :: "nat list"

datatype download_error = PermissionDenied string | AttemptsExhausted string nat

text \<open>
  The loop \<^verbatim>\<open>while attempt < retries\<close>: a completed transfer returns \<^verbatim>\<open>True\<close>; a
  \<^verbatim>\<open>PermissionError\<close> is raised again at once; every other exception adds one to
  \<^verbatim>\<open>attempt\<close> and sleeps \<^verbatim>\<open>2 ** attempt\<close> seconds. After the loop:
  \<^verbatim>\<open>raise Exception(f"Failed to download {description} after {retries} attempts")\<close>.
\<close>

function download_loop ::
  "(nat \<Rightarrow> transfer) \<Rightarrow> string \<Rightarrow> string \<Rightarrow> nat \<Rightarrow> nat \<Rightarrow> disk \<Rightarrow> (download_error + bool) \<times> disk" where
  "download_loop tr url dest_path retries attempt st =
     (if attempt < retries then
        (case tr attempt of
           Transferred c \<Rightarrow> (Inr True, st\<lparr>d_files := (d_files st)(dest_path \<mapsto> c)\<rparr>)
         | HTTPError \<Rightarrow>
             download_loop tr url dest_path retries (attempt + 1)
               (st\<lparr>slept := slept st @ [2 ^ (attempt + 1)]\<rparr>)
         | PermissionError \<Rightarrow> (Inl (PermissionDenied dest_path), st)
         | OtherException \<Rightarrow>
             download_loop tr url dest_path retries (attempt + 1)
               (st\<lparr>slept := slept st @ [2 ^ (attempt + 1)]\<rparr>)
         | Interrupted c \<Rightarrow>
             download_loop tr url dest_path retries (attempt + 1)
               (st\<lparr>d_files := (d_files st)(dest_path \<mapsto> c),
                   slept := slept st @ [2 ^ (attempt + 1)]\<rparr>))
      else (Inl (AttemptsExhausted url retries), st))"
  by pat_completeness auto
termination
  by (relation "measure (\<lambda>(tr, url, dest_path, retries, attempt, st). retries - attempt)") auto

declare download_loop.simps [simp del]

definition download_file_retrying ::
  "(nat \<Rightarrow> transfer) \<Rightarrow> string \<Rightarrow> string \<Rightarrow> nat \<Rightarrow> disk \<Rightarrow> (download_error + bool) \<times> disk" where
  "download_file_retrying tr url dest_path retries st =
     download_loop tr url dest_path retries 0 st"

text \<open>An error the loop retries after: anything but a completed transfer or a \<^verbatim>\<open>PermissionError\<close>.\<close>

definition transient :: "transfer \<Rightarrow> bool" where
  "transient t = (case t of Transferred c \<Rightarrow> False | PermissionError \<Rightarrow> False | _ \<Rightarrow> True)"

section \<open>Accounts\<close>

text \<open>
  The global list \<^verbatim>\<open>accounts\<close> and the file \<^verbatim>\<open>launcher_accounts.json\<close>
  (\<open>None\<close>: no file yet).
\<close>

record account_store =
  accounts :: "account list"
  accounts_file :: "account list option"

text \<open>
  \<^verbatim>\<open>save_accounts()\<close> dumps the list to the file; an exception is caught and printed,
  and the file then stays as it was. Whether the write goes through is given from
  outside.
\<close>

definition save_accounts :: "bool \<Rightarrow> account_store \<Rightarrow> account_store" where
  "save_accounts can_write s = (if can_write then s\<lparr>accounts_file := Some (accounts s)\<rparr> else s)"

text \<open>
  The record \<^verbatim>\<open>add_account\<close> builds. \<^verbatim>\<open>uuid3\<close> stands for
  \<^verbatim>\<open>str(uuid.uuid3(uuid.NAMESPACE_DNS, email_username))\<close> of the standard library. The
  token is
  \<^verbatim>\<open>password_token or "null" if acc_type in ["tlauncher", "microsoft"] else "0"\<close>,
  a conditional expression with the \<^verbatim>\<open>or\<close> inside its first branch.
\<close>

definition new_account ::
  "(string \<Rightarrow> string) \<Rightarrow> string \<Rightarrow> string \<Rightarrow> string option \<Rightarrow> account" where
  "new_account uuid3 ty email_username password_token =
     \<lparr>acc_type = Some ty,
      acc_username = Some email_username,
      acc_uuid = Some (uuid3 email_username),
      acc_token = Some (if ty \<in> set [''tlauncher'', ''microsoft'']
                        then (case password_token of
                                None \<Rightarrow> ''null''
                              | Some t \<Rightarrow> if t = [] then ''null'' else t)
                        else ''0''),
      acc_client = (if ty = ''lunar'' then Some ''lunar'' else None)\<rparr>"

text \<open>
  \<^verbatim>\<open>existing_acc.get("type") == acc_type and
   existing_acc.get("username") == email_username\<close>.
\<close>

definition same_account :: "string \<Rightarrow> string \<Rightarrow> account \<Rightarrow> bool" where
  "same_account ty email_username existing_acc =
     (acc_type existing_acc = Some ty \<and> acc_username existing_acc = Some email_username)"

text \<open>
  The loop \<^verbatim>\<open>for i, existing_acc in enumerate(accounts)\<close>: the first record that
  matches is replaced (\<^verbatim>\<open>accounts[i] = acc\<close>) and the function returns; \<open>None\<close>
  when no record matches.
\<close>

fun replace_first :: "(account \<Rightarrow> bool) \<Rightarrow> account \<Rightarrow> account list \<Rightarrow> account list option" where
  "replace_first P acc [] = None"
| "replace_first P acc (x # xs) =
     (if P x then Some (acc # xs)
      else map_option (Cons x) (replace_first P acc xs))"

definition add_account ::
  "(string \<Rightarrow> string) \<Rightarrow> bool \<Rightarrow> string \<Rightarrow> string \<Rightarrow> string option \<Rightarrow> account_store \<Rightarrow>
   account_store" where
  "add_account uuid3 can_write ty email_username password_token s =
     (if email_username = [] then s
      else
        (let acc = new_account uuid3 ty email_username password_token in
         case replace_first (same_account ty email_username) acc (accounts s) of
           Some updated \<Rightarrow> save_accounts can_write (s\<lparr>accounts := updated\<rparr>)
         | None \<Rightarrow> save_accounts can_write (s\<lparr>accounts := accounts s @ [acc]\<rparr>)))"

text \<open>The pair a record is identified by, and the invariant of an account list.\<close>

definition account_key :: "account \<Rightarrow> string option \<times> string option" where
  "account_key a = (acc_type a, acc_username a)"

definition one_per_key :: "account list \<Rightarrow> bool" where
  "one_per_key xs = distinct (map account_key xs)"

section \<open>The rule evaluator as the specification words it\<close>

text \<open>
  Section 4.3 of the specification: a rule matches when its OS constraint is absent or
  names the platform's OS and its architecture constraint, if present, names the
  platform's architecture; a non-empty rule list gives the action of the last rule that
  matches, and false when none does. This is the reading the code is compared with.
\<close>

definition rule_matches_spec :: "rule \<Rightarrow> string \<Rightarrow> string \<Rightarrow> bool" where
  "rule_matches_spec r os_name arch =
     (case rule_os r of
        None \<Rightarrow> True
      | Some d \<Rightarrow>
          (case map_of d ''name'' of None \<Rightarrow> True | Some n \<Rightarrow> n = os_name) \<and>
          (case map_of d ''arch'' of None \<Rightarrow> True | Some a \<Rightarrow> a = arch))"

definition isAllowed_spec :: "rule list \<Rightarrow> string \<Rightarrow> string \<Rightarrow> bool" where
  "isAllowed_spec rules os_name arch =
     (if rules = [] then True
      else case filter (\<lambda>r. rule_matches_spec r os_name arch) (rev rules) of
             [] \<Rightarrow> False
           | r # _ \<Rightarrow> rule_action r = ''allow'')"

section \<open>Concrete inputs\<close>

definition example_rules :: "rule list" where
  "example_rules =
     [\<lparr>rule_action = ''allow'', rule_os = None\<rparr>,
      \<lparr>rule_action = ''disallow'', rule_os = Some [(''name'', ''windows'')]\<rparr>]"

definition windows_host :: host where
  "windows_host = \<lparr>platform_system = ''Windows'', arm64 = False\<rparr>"

definition linux_host :: host where
  "linux_host = \<lparr>platform_system = ''Linux'', arm64 = False\<rparr>"

definition mac_host :: host where
  "mac_host = \<lparr>platform_system = ''Darwin'', arm64 = False\<rparr>"

text \<open>
  A small installation: the version \<^verbatim>\<open>child\<close> is on disk and inherits from
  \<^verbatim>\<open>base\<close>, which the version list knows. \<^verbatim>\<open>base\<close> has a client jar, a library
  under the example rules, a library with a native archive, and an asset index with one
  object; \<^verbatim>\<open>child\<close> adds one library.
\<close>

definition lib_plain :: library where
  "lib_plain =
     \<lparr>lib_rules = Some example_rules,
      lib_artifact = Some [(''path'', ''org/a/a.jar'')],
      lib_natives = None, lib_classifiers = None\<rparr>"

definition lib_native :: library where
  "lib_native =
     \<lparr>lib_rules = None, lib_artifact = None,
      lib_natives = Some [(''osx'', ''natives-osx'')],
      lib_classifiers =
        Some [(''natives-osx'', [(''path'', ''org/n/n-natives.jar''),
                                 (''url'', ''https://dl/n-natives.jar'')])]\<rparr>"

definition lib_child :: library where
  "lib_child =
     \<lparr>lib_rules = None,
      lib_artifact = Some [(''path'', ''forge/f.jar''), (''url'', ''https://maven/f.jar'')],
      lib_natives = None, lib_classifiers = None\<rparr>"

definition base_descriptor :: version_data where
  "base_descriptor =
     no_parent\<lparr>downloads_client := Some [(''url'', ''https://dl/base.jar'')],
               libraries := Some [lib_plain, lib_native],
               assetIndex := Some [(''id'', ''17''), (''url'', ''https://meta/17.json'')],
               arguments := Some \<lparr>args_jvm = Some [ArgStr ''-Dbase=1''],
                                  args_game = Some [ArgStr ''--username'',
                                                    ArgStr ''${auth_player_name}'']\<rparr>,
               mainClass := Some ''net.minecraft.client.main.Main''\<rparr>"

definition child_descriptor :: version_data where
  "child_descriptor =
     no_parent\<lparr>inheritsFrom := Some ''base'',
               libraries := Some [lib_child],
               arguments := Some \<lparr>args_jvm = Some [ArgStr ''-Dchild=1''],
                                  args_game = Some [ArgStr ''--tweak'']\<rparr>\<rparr>"

definition demo_index :: "(string \<times> dict) list" where
  "demo_index = [(''icons/icon.png'', [(''hash'', ''abc123''), (''size'', ''10'')])]"

definition demo_net :: "string \<Rightarrow> content option" where
  "demo_net url =
     (if url = ''https://meta/base.json'' then Some (Descriptor base_descriptor)
      else if url = ''https://dl/base.jar'' then Some Blob
      else if url = ''https://libraries.minecraft.net/org/a/a.jar'' then Some Blob
      else if url = ''https://dl/n-natives.jar''
        then Some (Archive [''META-INF/MANIFEST.MF'', ''libn.dylib''])
      else if url = ''https://maven/f.jar'' then Some Blob
      else if url = ''https://meta/17.json'' then Some (AssetIndex demo_index)
      else if url = ''https://resources.download.minecraft.net/ab/abc123'' then Some Blob
      else None)"

definition demo_env :: "variant \<Rightarrow> env" where
  "demo_env v =
     \<lparr>which = v, the_host = mac_host, mc_dir = ''/mc'',
      all_versions = (\<lambda>i. if i = ''base'' then Some ''https://meta/base.json'' else None),
      net = demo_net, writable = (\<lambda>p. True)\<rparr>"

definition demo_state :: state where
  "demo_state =
     \<lparr>files = (\<lambda>p. if p = ''/mc/versions/child/child.json''
                     then Some (Descriptor child_descriptor) else None),
      extracted = [], fetches = []\<rparr>"

text \<open>An installation with nothing to reach: no version list, no network.\<close>

definition offline_env :: "variant \<Rightarrow> env" where
  "offline_env v =
     \<lparr>which = v, the_host = mac_host, mc_dir = ''/mc'',
      all_versions = (\<lambda>i. None), net = (\<lambda>u. None), writable = (\<lambda>p. True)\<rparr>"

text \<open>A descriptor on disk that names itself as its parent.\<close>

definition loop_state :: state where
  "loop_state =
     \<lparr>files = (\<lambda>p. if p = ''/mc/versions/loop/loop.json''
                     then Some (Descriptor (no_parent\<lparr>inheritsFrom := Some ''loop''\<rparr>))
                     else None),
      extracted = [], fetches = []\<rparr>"

text \<open>
  Two versions that inherit from each other: \<^verbatim>\<open>ping\<close> is on disk, \<^verbatim>\<open>pong\<close> comes
  from the network.
\<close>

definition pingpong_env :: "variant \<Rightarrow> env" where
  "pingpong_env v =
     \<lparr>which = v, the_host = mac_host, mc_dir = ''/mc'',
      all_versions = (\<lambda>i. if i = ''pong'' then Some ''https://meta/pong.json'' else None),
      net = (\<lambda>u. if u = ''https://meta/pong.json''
                  then Some (Descriptor (no_parent\<lparr>inheritsFrom := Some ''ping''\<rparr>))
                  else None),
      writable = (\<lambda>p. True)\<rparr>"

definition pingpong_state :: state where
  "pingpong_state =
     \<lparr>files = (\<lambda>p. if p = ''/mc/versions/ping/ping.json''
                     then Some (Descriptor (no_parent\<lparr>inheritsFrom := Some ''pong''\<rparr>))
                     else None),
      extracted = [], fetches = []\<rparr>"

text \<open>
  A version whose descriptor, as the network serves it, already carries
  \<^verbatim>\<open>skinVersion = true\<close>, on an empty disk.
\<close>

definition skinned_descriptor :: version_data where
  "skinned_descriptor = no_parent\<lparr>skinVersion := Some True\<rparr>"

definition skinned_env :: "variant \<Rightarrow> env" where
  "skinned_env v =
     \<lparr>which = v, the_host = mac_host, mc_dir = ''/mc'',
      all_versions = (\<lambda>i. if i = ''s'' then Some ''https://meta/s.json'' else None),
      net = (\<lambda>u. if u = ''https://meta/s.json'' then Some (Descriptor skinned_descriptor)
                  else None),
      writable = (\<lambda>p. True)\<rparr>"

definition empty_state :: state where
  "empty_state = \<lparr>files = (\<lambda>p. None), extracted = [], fetches = []\<rparr>"

text \<open>A bare descriptor on disk, for runs that cannot write.\<close>

definition plain_state :: state where
  "plain_state =
     \<lparr>files = (\<lambda>p. if p = ''/mc/versions/plain/plain.json''
                     then Some (Descriptor no_parent) else None),
      extracted = [], fetches = []\<rparr>"

text \<open>
  A transfer that fails on its first two tries and completes on the third, and a disk
  with no file and no sleep yet.
\<close>

definition flaky :: "nat \<Rightarrow> transfer" where
  "flaky k = (if k = 0 then HTTPError else if k = 1 then OtherException else Transferred Blob)"

definition empty_disk :: disk where
  "empty_disk = \<lparr>d_files = (\<lambda>p. None), slept = []\<rparr>"

text \<open>An account list with two records, and a stand-in for \<^verbatim>\<open>uuid3\<close>.\<close>

definition demo_uuid3 :: "string \<Rightarrow> string" where
  "demo_uuid3 n = ''uuid-of-'' @ n"

definition demo_accounts :: account_store where
  "demo_accounts =
     \<lparr>accounts =
        [\<lparr>acc_type = Some ''offline'', acc_username = Some ''Player'',
          acc_uuid = Some ''uuid-of-Player'', acc_token = Some ''0'', acc_client = None\<rparr>,
         \<lparr>acc_type = Some ''tlauncher'', acc_username = Some ''bob'',
          acc_uuid = Some ''uuid-of-bob'', acc_token = Some ''old'', acc_client = None\<rparr>],
      accounts_file = None\<rparr>"

text \<open>The account and the launch the placeholder example is run with.\<close>

definition steve :: account where
  "steve =
     \<lparr>acc_type = Some ''offline'', acc_username = Some ''Steve'',
      acc_uuid = Some ''5627dd98-e6be-3c21-b8a8-e92344183641'', acc_token = Some ''0'',
      acc_client = None\<rparr>"

definition demo_launch :: launch where
  "demo_launch =
     \<lparr>l_version_id = ''base'', l_game_dir = ''/mc'', l_assets_root = ''/mc/assets'',
      l_natives_dir = ''/mc/versions/base/natives'', l_pathsep = '':'', l_lunar = False\<rparr>"

section \<open>Notions the proofs use\<close>

text \<open>
  Two file contents are the same up to the one change the installer makes to a file it
  has: the \<^verbatim>\<open>skinVersion\<close> flag set in a descriptor.
\<close>

definition same_file :: "content \<Rightarrow> content \<Rightarrow> bool" where
  "same_file c c' =
     (c' = c \<or> (\<exists>d. c = Descriptor d \<and> c' = Descriptor (d\<lparr>skinVersion := Some True\<rparr>)))"

text \<open>A later state of the disk: every file is still there, the same up to that flag.\<close>

definition extends :: "state \<Rightarrow> state \<Rightarrow> bool" where
  "extends st st' =
     (\<forall>p c. files st p = Some c \<longrightarrow> (\<exists>c'. files st' p = Some c' \<and> same_file c c'))"

text \<open>
  A second run on the same installation: the same variant, host and root directory; the
  network, the permissions and the version list may have changed.
\<close>

definition same_setup :: "env \<Rightarrow> env \<Rightarrow> bool" where
  "same_setup e e2 = (which e2 = which e \<and> the_host e2 = the_host e \<and> mc_dir e2 = mc_dir e)"

text \<open>A hash as the asset index writes it: hexadecimal digits, at least one.\<close>

definition hex_string :: "string \<Rightarrow> bool" where
  "hex_string h = (h \<noteq> [] \<and> list_all (\<lambda>c. c \<in> set ''0123456789abcdefABCDEF'') h)"

text \<open>
  Where \<^verbatim>\<open>install_version\<close> gets the descriptor of a version from: the file when
  there is one, else the GET of the URL that \<^verbatim>\<open>all_versions\<close> lists.
\<close>

definition descriptor_source :: "env \<Rightarrow> state \<Rightarrow> string \<Rightarrow> version_data option" where
  "descriptor_source e st version_id =
     (case files st (version_json_path e version_id) of
        Some (Descriptor d) \<Rightarrow> Some d
      | Some _ \<Rightarrow> None
      | None \<Rightarrow>
          (case all_versions e version_id of
             None \<Rightarrow> None
           | Some url \<Rightarrow>
               (case net e url of Some (Descriptor d) \<Rightarrow> Some d | _ \<Rightarrow> None)))"

text \<open>
  A set of versions that inheritance never leaves: every member whose descriptor can be
  had names a parent, and the parent is a member. The versions on an inheritance chain
  that runs into a cycle form such a set.
\<close>

definition inheritance_closed :: "env \<Rightarrow> state \<Rightarrow> string set \<Rightarrow> bool" where
  "inheritance_closed e st S =
     (\<forall>v \<in> S. \<forall>d. descriptor_source e st v = Some d \<longrightarrow>
        (\<exists>p. inheritsFrom d = Some p \<and> p \<noteq> [] \<and> p \<in> S))"

text \<open>The same with every descriptor of the set already on disk.\<close>

definition cycle_on_disk :: "env \<Rightarrow> state \<Rightarrow> string set \<Rightarrow> bool" where
  "cycle_on_disk e st S =
     (\<forall>v \<in> S. \<exists>d p. files st (version_json_path e v) = Some (Descriptor d) \<and>
        inheritsFrom d = Some p \<and> p \<noteq> [] \<and> p \<in> S)"

section \<open>Rule evaluation\<close>

text \<open>
  C8. An empty rule list allows the entry, whatever the variant and the host: the
  disjunct \<^verbatim>\<open>not rules\<close> decides before any rule is looked at.
\<close>

theorem empty_rules_allow: "rules_allow (current_os v h) [] = True"
  by (simp add: rules_allow_def)

text \<open>
  C1, as stated, fails: the code does not keep the verdict of the last matching rule.
  On the rule list of the specification's own example, \<^verbatim>\<open>Cat4k.py\<close> on a Windows host
  allows the entry (the first rule is an allow rule without an OS), where the last
  matching rule is the disallow rule.
\<close>

theorem rules_allow_not_last_match:
  "rules_allow (current_os Cat4k windows_host) example_rules = True \<and>
   isAllowed_spec example_rules ''windows'' ''x86_64'' = False"
  by (simp add: rules_allow_def rule_allows_def current_os_def IS_MAC_def windows_host_def
      example_rules_def isAllowed_spec_def rule_matches_spec_def)

text \<open>
  C1, amended: a non-empty rule list allows the entry exactly when some rule has the
  action allow and an OS constraint that is absent, empty, or names the OS the variant
  compares with. Disallow rules, architecture constraints and the order of the rules play
  no part. On the example the verdict is true on Linux and on Windows (and in the two
  variants that compare with \<^verbatim>\<open>"osx"\<close>, on every host).
\<close>

theorem rules_allow_any_allow:
  assumes "rules \<noteq> []"
  shows "(rules_allow os rules \<longleftrightarrow>
           (\<exists>r \<in> set rules. rule_action r = ''allow'' \<and>
              (rule_os r = None \<or> rule_os r = Some [] \<or>
               (\<exists>d. rule_os r = Some d \<and> map_of d ''name'' = Some os)))) \<and>
         rules_allow (current_os Cat4k linux_host) example_rules \<and>
         rules_allow (current_os Cat4k windows_host) example_rules \<and>
         rules_allow (current_os Client h) example_rules \<and>
         rules_allow (current_os CAT21X h) example_rules"
proof -
  have "rules_allow os rules \<longleftrightarrow>
           (\<exists>r \<in> set rules. rule_action r = ''allow'' \<and>
              (rule_os r = None \<or> rule_os r = Some [] \<or>
               (\<exists>d. rule_os r = Some d \<and> map_of d ''name'' = Some os)))"
    using assms
    by (auto simp: rules_allow_def rule_allows_def list_ex_iff split: option.splits)
  moreover have "rules_allow os' example_rules" for os'
    by (simp add: rules_allow_def rule_allows_def example_rules_def)
  ultimately show ?thesis by blast
qed

theorem rules_allow_any_allow_witness:
  "example_rules \<noteq> [] \<and> rules_allow ''windows'' example_rules \<and>
   rules_allow ''linux'' example_rules"
  using rules_allow_any_allow [of example_rules "''windows''"]
    rules_allow_any_allow [of example_rules "''linux''"]
  by (simp add: example_rules_def)

section \<open>Files only ever get added\<close>

text \<open>
  Every step of the installer leaves the files it found in place, the same up to the
  \<^verbatim>\<open>skinVersion\<close> flag: a download only happens to a path that holds no file, and
  the extraction of natives writes into the natives directory alone.
\<close>

lemma same_file_refl [simp]: "same_file c c"
  by (simp add: same_file_def)

lemma same_file_trans: "same_file a b \<Longrightarrow> same_file b c \<Longrightarrow> same_file a c"
  by (auto simp: same_file_def)

lemma extends_refl [simp]: "extends st st"
  by (simp add: extends_def)

lemma extends_trans: "extends a b \<Longrightarrow> extends b c \<Longrightarrow> extends a c"
  unfolding extends_def by (meson same_file_trans)

lemma extends_files_eq: "files b = files c \<Longrightarrow> extends a b \<Longrightarrow> extends a c"
  by (simp add: extends_def)

lemma extends_isfile: "extends a b \<Longrightarrow> isfile a p \<Longrightarrow> isfile b p"
  by (auto simp: extends_def isfile_def)

lemma download_file_Inr:
  "download_file e url p st = Inr st' \<Longrightarrow>
     \<exists>c. net e url = Some c \<and> writable e p \<and>
         st' = st\<lparr>files := (files st)(p \<mapsto> c), fetches := fetches st @ [(url, p)]\<rparr>"
  by (auto simp: download_file_def split: option.splits if_splits)

lemma fetch_if_missing_extends:
  "fetch_if_missing e url p st = Inr st' \<Longrightarrow> extends st st'"
  by (auto simp: fetch_if_missing_def isfile_def extends_def dest!: download_file_Inr split: if_splits)

lemma fetch_if_missing_isfile:
  "fetch_if_missing e url p st = Inr st' \<Longrightarrow> isfile st' p"
  by (auto simp: fetch_if_missing_def isfile_def dest!: download_file_Inr split: if_splits)

lemma fetch_if_missing_present:
  "isfile st p \<Longrightarrow> fetch_if_missing e url p st = Inr st"
  by (simp add: fetch_if_missing_def)

lemma fetch_if_missing_rerun:
  "fetch_if_missing e url p st = Inr st' \<Longrightarrow> extends st' st2 \<Longrightarrow>
   fetch_if_missing e2 url2 p st2 = Inr st2"
  by (meson extends_isfile fetch_if_missing_isfile fetch_if_missing_present)

lemma same_setup_paths:
  assumes "same_setup e e2"
  shows "VERSIONS_DIR e2 = VERSIONS_DIR e" "ASSETS_DIR e2 = ASSETS_DIR e"
    "LIBRARIES_DIR e2 = LIBRARIES_DIR e" "version_folder e2 v = version_folder e v"
    "version_json_path e2 v = version_json_path e v"
    "version_jar_path e2 v = version_jar_path e v"
    "asset_path e2 h = asset_path e h" "index_path e2 i = index_path e i"
    "which e2 = which e" "the_host e2 = the_host e"
  using assms
  by (simp_all add: same_setup_def VERSIONS_DIR_def ASSETS_DIR_def LIBRARIES_DIR_def
      version_folder_def version_json_path_def version_jar_path_def asset_path_def
      index_path_def)

lemma install_client_jar_extends:
  "install_client_jar e v d st = Inr st' \<Longrightarrow> extends st st'"
  by (auto simp: install_client_jar_def split: option.splits if_splits
      dest: fetch_if_missing_extends)

lemma install_client_jar_rerun:
  "install_client_jar e v d st = Inr st' \<Longrightarrow> extends st' st2 \<Longrightarrow> same_setup e e2 \<Longrightarrow>
   install_client_jar e2 v d st2 = Inr st2"
  by (auto simp: install_client_jar_def same_setup_paths split: option.splits if_splits
      dest: fetch_if_missing_rerun)

lemma install_library_artifact_extends:
  "install_library_artifact e lib st = Inr st' \<Longrightarrow> extends st st'"
  by (auto simp: install_library_artifact_def split: option.splits if_splits
      dest: fetch_if_missing_extends)

lemma install_library_artifact_rerun:
  "install_library_artifact e lib st = Inr st' \<Longrightarrow> extends st' st2 \<Longrightarrow> same_setup e e2 \<Longrightarrow>
   install_library_artifact e2 lib st2 = Inr st2"
  by (auto simp: install_library_artifact_def same_setup_paths split: option.splits if_splits
      dest: fetch_if_missing_rerun)

lemma extract_natives_files:
  "extract_natives e nd np st = Inr st' \<Longrightarrow> files st' = files st \<and> fetches st' = fetches st"
  by (auto simp: extract_natives_def split: option.splits content.splits if_splits)

lemma extract_natives_extends:
  "extract_natives e nd np st = Inr st' \<Longrightarrow> extends st st'"
  by (auto simp: extends_def dest!: extract_natives_files)

lemma extends_not_descriptor:
  "extends a b \<Longrightarrow> files a p = Some c \<Longrightarrow> (\<And>d. c \<noteq> Descriptor d) \<Longrightarrow> files b p = Some c"
  by (auto simp: extends_def same_file_def)

lemma extends_descriptor:
  "extends a b \<Longrightarrow> files a p = Some (Descriptor d) \<Longrightarrow>
   \<exists>d'. files b p = Some (Descriptor d')"
  by (auto simp: extends_def same_file_def)

lemma extract_natives_rerun:
  assumes "extract_natives e nd np st = Inr st'" "extends st' st2" "same_setup e e2"
  shows "\<exists>st3. extract_natives e2 nd np st2 = Inr st3 \<and> files st3 = files st2 \<and>
           fetches st3 = fetches st2"
proof (cases "files st np")
  case None
  with assms show ?thesis
    by (auto simp: extract_natives_def same_setup_paths split: option.splits content.splits if_splits)
next
  case (Some c)
  have same: "files st' = files st"
    using assms(1) extract_natives_files by blast
  then have ex: "extends st st2"
    using assms(2) by (simp add: extends_def)
  show ?thesis
  proof (cases c)
    case (Descriptor d)
    with Some ex obtain d' where "files st2 np = Some (Descriptor d')"
      using extends_descriptor by blast
    with assms Some Descriptor show ?thesis
      by (auto simp: extract_natives_def same_setup_paths split: if_splits)
  next
    case (AssetIndex x)
    with Some ex have "files st2 np = Some c"
      by (auto intro: extends_not_descriptor)
    with assms Some AssetIndex show ?thesis
      by (auto simp: extract_natives_def same_setup_paths split: if_splits)
  next
    case (Archive x)
    with Some ex have "files st2 np = Some c"
      by (auto intro: extends_not_descriptor)
    with assms Some Archive show ?thesis
      by (auto simp: extract_natives_def same_setup_paths split: if_splits)
  next
    case Blob
    with Some ex have "files st2 np = Some c"
      by (auto intro: extends_not_descriptor)
    with assms Some Blob show ?thesis
      by (auto simp: extract_natives_def same_setup_paths split: if_splits)
  qed
qed

lemma install_library_natives_extends:
  "install_library_natives e v lib st = Inr st' \<Longrightarrow> extends st st'"
  unfolding install_library_natives_def
  by (auto split: option.splits if_splits sum.splits
      dest!: fetch_if_missing_extends extract_natives_extends intro: extends_trans)

lemma install_library_natives_rerun:
  assumes "install_library_natives e v lib st = Inr st'" "extends st' st2" "same_setup e e2"
  shows "\<exists>st3. install_library_natives e2 v lib st2 = Inr st3 \<and> files st3 = files st2 \<and>
           fetches st3 = fetches st2"
proof -
  note ss = same_setup_paths [OF assms(3)]
  consider
      (skip) "st' = st" "install_library_natives e2 v lib st2 = Inr st2"
    | (go) p url st1 where
        "fetch_if_missing e url (path_join (LIBRARIES_DIR e) p) st = Inr st1"
        "extract_natives e (path_join (version_folder e v) ''natives'')
           (path_join (LIBRARIES_DIR e) p) st1 = Inr st'"
        "install_library_natives e2 v lib st2 =
           (case fetch_if_missing e2 url (path_join (LIBRARIES_DIR e) p) st2 of
              Inl x \<Rightarrow> Inl x
            | Inr s \<Rightarrow> extract_natives e2 (path_join (version_folder e v) ''natives'')
                 (path_join (LIBRARIES_DIR e) p) s)"
    using assms(1) unfolding install_library_natives_def
    by (auto simp: ss split: option.splits if_splits sum.splits)
  then show ?thesis
  proof cases
    case skip
    then show ?thesis by simp
  next
    case go
    have "extends st1 st'" using go(2) by (rule extract_natives_extends)
    then have e12: "extends st1 st2" using assms(2) by (rule extends_trans)
    have f: "fetch_if_missing e2 url (path_join (LIBRARIES_DIR e) p) st2 = Inr st2"
      using go(1) e12 by (rule fetch_if_missing_rerun)
    show ?thesis
      using extract_natives_rerun [OF go(2) assms(2) assms(3)] go(3) f by simp
  qed
qed

lemma install_library_extends:
  "install_library e v lib st = Inr st' \<Longrightarrow> extends st st'"
  unfolding install_library_def
  by (auto split: if_splits sum.splits
      dest!: install_library_artifact_extends install_library_natives_extends
      intro: extends_trans)

lemma install_library_rerun:
  assumes "install_library e v lib st = Inr st'" "extends st' st2" "same_setup e e2"
  shows "\<exists>st3. install_library e2 v lib st2 = Inr st3 \<and> files st3 = files st2 \<and>
           fetches st3 = fetches st2"
proof (cases "rules_allow (current_os (which e) (the_host e))
                (case lib_rules lib of None \<Rightarrow> [] | Some rules \<Rightarrow> rules)")
  case False
  then show ?thesis
    by (simp add: install_library_def same_setup_paths [OF assms(3)])
next
  case True
  with assms(1) obtain st1 where
    a: "install_library_artifact e lib st = Inr st1" and
    n: "install_library_natives e v lib st1 = Inr st'"
    by (auto simp: install_library_def split: sum.splits)
  have "extends st1 st'" using n by (rule install_library_natives_extends)
  then have "extends st1 st2" using assms(2) by (rule extends_trans)
  then have a2: "install_library_artifact e2 lib st2 = Inr st2"
    using a assms(3) install_library_artifact_rerun by blast
  show ?thesis
    using install_library_natives_rerun [OF n assms(2) assms(3)] a2 True
    by (simp add: install_library_def same_setup_paths [OF assms(3)])
qed

lemma install_libraries_extends:
  "install_libraries e v libs st = Inr st' \<Longrightarrow> extends st st'"
proof (induction libs arbitrary: st)
  case Nil
  then show ?case by simp
next
  case (Cons lib libs)
  then show ?case
    by (auto split: sum.splits dest!: install_library_extends intro: extends_trans)
qed

lemma install_libraries_rerun:
  assumes "same_setup e e2"
  shows "install_libraries e v libs st = Inr st' \<Longrightarrow> extends st' st2 \<Longrightarrow>
    \<exists>st3. install_libraries e2 v libs st2 = Inr st3 \<and> files st3 = files st2 \<and>
           fetches st3 = fetches st2"
proof (induction libs arbitrary: st st2)
  case Nil
  then show ?case by simp
next
  case (Cons lib libs)
  from Cons.prems(1) obtain st1 where
    l: "install_library e v lib st = Inr st1" and
    r: "install_libraries e v libs st1 = Inr st'"
    by (auto split: sum.splits)
  have "extends st1 st'" using r by (rule install_libraries_extends)
  then have "extends st1 st2" using Cons.prems(2) by (rule extends_trans)
  from install_library_rerun [OF l this assms] obtain sa where
    sa: "install_library e2 v lib st2 = Inr sa" "files sa = files st2" "fetches sa = fetches st2"
    by blast
  have "extends st' sa" using Cons.prems(2) sa(2) by (simp add: extends_def)
  from Cons.IH [OF r this] obtain st3 where
    "install_libraries e2 v libs sa = Inr st3" "files st3 = files sa" "fetches st3 = fetches sa"
    by blast
  with sa show ?case by simp
qed

lemma install_asset_extends:
  "install_asset e entry st = Inr st' \<Longrightarrow> extends st st'"
  by (auto simp: install_asset_def split: option.splits if_splits dest: fetch_if_missing_extends)

lemma install_asset_rerun:
  "install_asset e entry st = Inr st' \<Longrightarrow> extends st' st2 \<Longrightarrow> same_setup e e2 \<Longrightarrow>
   install_asset e2 entry st2 = Inr st2"
  by (auto simp: install_asset_def same_setup_paths split: option.splits if_splits
      dest: fetch_if_missing_rerun)

lemma install_assets_extends:
  "install_assets e entries st = Inr st' \<Longrightarrow> extends st st'"
proof (induction entries arbitrary: st)
  case Nil
  then show ?case by simp
next
  case (Cons entry entries)
  then show ?case
    by (auto split: sum.splits dest!: install_asset_extends intro: extends_trans)
qed

lemma install_assets_rerun:
  assumes "same_setup e e2"
  shows "install_assets e entries st = Inr st' \<Longrightarrow> extends st' st2 \<Longrightarrow>
    install_assets e2 entries st2 = Inr st2"
proof (induction entries arbitrary: st)
  case Nil
  then show ?case by simp
next
  case (Cons entry entries)
  from Cons.prems(1) obtain st1 where
    l: "install_asset e entry st = Inr st1" and
    r: "install_assets e entries st1 = Inr st'"
    by (auto split: sum.splits)
  have "extends st1 st'" using r by (rule install_assets_extends)
  then have "extends st1 st2" using Cons.prems(2) by (rule extends_trans)
  then have "install_asset e2 entry st2 = Inr st2"
    using l assms install_asset_rerun by blast
  with Cons.IH [OF r Cons.prems(2)] show ?case by simp
qed

lemma install_asset_index_extends:
  "install_asset_index e d pd st = Inr st' \<Longrightarrow> extends st st'"
  unfolding install_asset_index_def
  by (auto split: option.splits if_splits sum.splits content.splits
      dest!: fetch_if_missing_extends install_assets_extends intro: extends_trans)

lemma install_asset_index_rerun:
  assumes "install_asset_index e d pd st = Inr st'" "extends st' st2" "same_setup e e2"
  shows "install_asset_index e2 d pd st2 = Inr st2"
proof -
  note ss = same_setup_paths [OF assms(3)]
  consider
      (skip) "install_asset_index e2 d pd st2 = Inr st2"
    | (go) idx_id idx_url st1 objects where
        "fetch_if_missing e idx_url (index_path e idx_id) st = Inr st1"
        "files st1 (index_path e idx_id) = Some (AssetIndex objects)"
        "install_assets e objects st1 = Inr st'"
        "install_asset_index e2 d pd st2 =
           (case fetch_if_missing e2 idx_url (index_path e idx_id) st2 of
              Inl x \<Rightarrow> Inl x
            | Inr s \<Rightarrow>
               (case files s (index_path e idx_id) of
                  None \<Rightarrow> Inl (FileNotFoundError (index_path e idx_id))
                | Some (AssetIndex objects) \<Rightarrow> install_assets e2 objects s
                | Some _ \<Rightarrow> Inl (JSONDecodeError (index_path e idx_id))))"
    using assms(1) unfolding install_asset_index_def
    by (auto simp: ss split: option.splits if_splits sum.splits content.splits)
  then show ?thesis
  proof cases
    case skip
    then show ?thesis .
  next
    case go
    have "extends st1 st'" using go(3) by (rule install_assets_extends)
    then have e12: "extends st1 st2" using assms(2) by (rule extends_trans)
    have f: "fetch_if_missing e2 idx_url (index_path e idx_id) st2 = Inr st2"
      using go(1) e12 by (rule fetch_if_missing_rerun)
    have c: "files st2 (index_path e idx_id) = Some (AssetIndex objects)"
      using e12 go(2) by (auto intro: extends_not_descriptor)
    have "install_assets e2 objects st2 = Inr st2"
      using install_assets_rerun [OF assms(3) go(3) assms(2)] .
    with go(4) f c show ?thesis by simp
  qed
qed

lemma patch_skinVersion_extends: "extends st (patch_skinVersion e p st)"
  by (auto simp: patch_skinVersion_def extends_def same_file_def
      split: option.splits content.splits)

lemma patch_skinVersion_fetches: "fetches (patch_skinVersion e p st) = fetches st"
  by (auto simp: patch_skinVersion_def split: option.splits content.splits)

lemma install_own_extends:
  assumes "install_own e v d pd st = Inr st'"
  shows "extends st st'"
proof -
  from assms obtain s1 s2 s3 where
    j: "install_client_jar e v d st = Inr s1" and
    l: "install_libraries e v (merged_libraries d pd) s1 = Inr s2" and
    a: "install_asset_index e d pd s2 = Inr s3" and
    p: "st' = patch_skinVersion e (version_json_path e v) s3"
    by (auto simp: install_own_def split: sum.splits)
  have "extends st s1" using j by (rule install_client_jar_extends)
  moreover have "extends s1 s2" using l by (rule install_libraries_extends)
  moreover have "extends s2 s3" using a by (rule install_asset_index_extends)
  moreover have "extends s3 st'" unfolding p by (rule patch_skinVersion_extends)
  ultimately show ?thesis by (blast intro: extends_trans)
qed

lemma install_own_rerun:
  assumes "install_own e v d pd st = Inr st'" "extends st' st2" "same_setup e e2"
  shows "\<exists>st3. install_own e2 v d pd st2 = Inr st3 \<and> extends st2 st3 \<and>
           fetches st3 = fetches st2"
proof -
  from assms(1) obtain s1 s2 s3 where
    j: "install_client_jar e v d st = Inr s1" and
    l: "install_libraries e v (merged_libraries d pd) s1 = Inr s2" and
    a: "install_asset_index e d pd s2 = Inr s3" and
    p: "st' = patch_skinVersion e (version_json_path e v) s3"
    by (auto simp: install_own_def split: sum.splits)
  have e3: "extends s3 st2"
    using assms(2) p patch_skinVersion_extends extends_trans by blast
  have e2': "extends s2 st2"
    using a e3 install_asset_index_extends extends_trans by blast
  have e1: "extends s1 st2"
    using l e2' install_libraries_extends extends_trans by blast
  have j2: "install_client_jar e2 v d st2 = Inr st2"
    using j e1 assms(3) by (rule install_client_jar_rerun)
  from install_libraries_rerun [OF assms(3) l e2'] obtain sl where
    sl: "install_libraries e2 v (merged_libraries d pd) st2 = Inr sl"
      "files sl = files st2" "fetches sl = fetches st2"
    by blast
  have "extends s3 sl" using e3 sl(2) by (simp add: extends_def)
  with a have a2: "install_asset_index e2 d pd sl = Inr sl"
    using assms(3) by (rule install_asset_index_rerun)
  have "extends st2 sl" using sl(2) by (simp add: extends_def)
  then have "extends st2 (patch_skinVersion e2 (version_json_path e2 v) sl)"
    using patch_skinVersion_extends extends_trans by blast
  with j2 sl a2 show ?thesis
    by (simp add: install_own_def patch_skinVersion_fetches)
qed

lemma load_descriptor_extends:
  assumes "load_descriptor st p = Inr d" "extends st st2"
  shows "\<exists>d'. load_descriptor st2 p = Inr d' \<and> (d' = d \<or> d' = d\<lparr>skinVersion := Some True\<rparr>)"
proof -
  from assms(1) have "files st p = Some (Descriptor d)"
    by (auto simp: load_descriptor_def split: option.splits content.splits)
  with assms(2) obtain c' where "files st2 p = Some c'" "same_file (Descriptor d) c'"
    by (auto simp: extends_def)
  then show ?thesis
    by (auto simp: load_descriptor_def same_file_def)
qed

lemma install_own_skinVersion:
  assumes "d' = d \<or> d' = d\<lparr>skinVersion := Some True\<rparr>"
    and "pd' = pd \<or> pd' = pd\<lparr>skinVersion := Some True\<rparr>"
  shows "install_own e v d' pd' st = install_own e v d pd st"
proof -
  have f: "downloads_client d' = downloads_client d" "libraries d' = libraries d"
    "assetIndex d' = assetIndex d" "libraries pd' = libraries pd"
    "assetIndex pd' = assetIndex pd"
    using assms by auto
  have j: "install_client_jar e v d' = install_client_jar e v d"
    by (rule ext) (simp add: install_client_jar_def f)
  have l: "merged_libraries d' pd' = merged_libraries d pd"
    by (simp add: merged_libraries_def get_libraries_def f)
  have "asset_index_info d' pd' = asset_index_info d pd"
    by (simp add: asset_index_info_def f split: option.splits)
  then have a: "install_asset_index e d' pd' = install_asset_index e d pd"
    by (intro ext) (simp add: install_asset_index_def)
  show ?thesis
    unfolding install_own_def j l a ..
qed

lemma fetch_version_json_extends:
  "fetch_version_json e v st = Inr st' \<Longrightarrow> extends st st'"
  using fetch_if_missing_extends [of e _ "version_json_path e v" st st']
  by (auto simp: fetch_version_json_def fetch_if_missing_def split: if_splits option.splits)

lemma fetch_version_json_isfile:
  "fetch_version_json e v st = Inr st' \<Longrightarrow> isfile st' (version_json_path e v)"
  by (auto simp: fetch_version_json_def isfile_def split: if_splits option.splits
      dest!: download_file_Inr)

lemma fetch_version_json_rerun:
  assumes "fetch_version_json e v st = Inr st'" "extends st' st2" "same_setup e e2"
  shows "fetch_version_json e2 v st2 = Inr st2"
proof -
  have "isfile st2 (version_json_path e v)"
    using assms(1,2) fetch_version_json_isfile extends_isfile by blast
  then show ?thesis
    by (simp add: fetch_version_json_def same_setup_paths [OF assms(3)])
qed

lemma install_version_extends:
  "install_version e depth v st = Inr st' \<Longrightarrow> extends st st'"
proof (induction depth arbitrary: v st st')
  case 0
  then show ?case by simp
next
  case (Suc depth)
  from Suc.prems obtain s1 d where
    f: "fetch_version_json e v st = Inr s1" and
    ld: "load_descriptor s1 (version_json_path e v) = Inr d"
    by (auto split: sum.splits)
  have e1: "extends st s1" using f by (rule fetch_version_json_extends)
  show ?case
  proof (cases "truthy (inheritsFrom d)")
    case False
    with Suc.prems f ld have "install_own e v d no_parent s1 = Inr st'"
      by (auto simp: truthy_def split: option.splits)
    then have "extends s1 st'" by (rule install_own_extends)
    with e1 show ?thesis by (rule extends_trans)
  next
    case True
    then obtain p where p: "inheritsFrom d = Some p" "p \<noteq> []"
      by (auto simp: truthy_def split: option.splits)
    with Suc.prems f ld obtain s2 pd where
      r: "install_version e depth p s1 = Inr s2" and
      o: "install_own e v d pd s2 = Inr st'"
      by (auto split: sum.splits)
    have "extends s1 s2" using r by (rule Suc.IH)
    moreover have "extends s2 st'" using o by (rule install_own_extends)
    ultimately show ?thesis using e1 by (blast intro: extends_trans)
  qed
qed

lemma install_version_rerun:
  assumes ss: "same_setup e e2"
  shows "install_version e depth v st = Inr st' \<Longrightarrow> extends st' st2 \<Longrightarrow>
    \<exists>st3. install_version e2 depth v st2 = Inr st3 \<and> extends st2 st3 \<and>
          fetches st3 = fetches st2"
proof (induction depth arbitrary: v st st' st2)
  case 0
  then show ?case by simp
next
  case (Suc depth)
  note path = same_setup_paths(5) [OF ss]
  from Suc.prems(1) obtain s1 d where
    f: "fetch_version_json e v st = Inr s1" and
    ld: "load_descriptor s1 (version_json_path e v) = Inr d"
    by (auto split: sum.splits)
  have s1': "extends s1 st'"
  proof -
    show ?thesis
    proof (cases "truthy (inheritsFrom d)")
      case False
      with Suc.prems(1) f ld have "install_own e v d no_parent s1 = Inr st'"
        by (auto simp: truthy_def split: option.splits)
      then show ?thesis by (rule install_own_extends)
    next
      case True
      then obtain p where p: "inheritsFrom d = Some p" "p \<noteq> []"
        by (auto simp: truthy_def split: option.splits)
      with Suc.prems(1) f ld obtain s2 pd where
        r: "install_version e depth p s1 = Inr s2" and
        o: "install_own e v d pd s2 = Inr st'"
        by (auto split: sum.splits)
      have "extends s1 s2" using r by (rule install_version_extends)
      moreover have "extends s2 st'" using o by (rule install_own_extends)
      ultimately show ?thesis by (rule extends_trans)
    qed
  qed
  then have s12: "extends s1 st2" using Suc.prems(2) by (rule extends_trans)
  have f2: "fetch_version_json e2 v st2 = Inr st2"
    using f s12 ss by (rule fetch_version_json_rerun)
  from load_descriptor_extends [OF ld s12] obtain d' where
    ld2: "load_descriptor st2 (version_json_path e2 v) = Inr d'" and
    dd: "d' = d \<or> d' = d\<lparr>skinVersion := Some True\<rparr>"
    by (auto simp: path)
  have inh: "inheritsFrom d' = inheritsFrom d" using dd by auto
  show ?case
  proof (cases "truthy (inheritsFrom d)")
    case False
    with Suc.prems(1) f ld have o: "install_own e v d no_parent s1 = Inr st'"
      by (auto simp: truthy_def split: option.splits)
    from install_own_rerun [OF o Suc.prems(2) ss] obtain st3 where
      "install_own e2 v d no_parent st2 = Inr st3" "extends st2 st3" "fetches st3 = fetches st2"
      by blast
    moreover have "install_own e2 v d' no_parent st2 = install_own e2 v d no_parent st2"
      using dd by (intro install_own_skinVersion) auto
    ultimately show ?thesis
      using f2 ld2 inh False by (auto simp: truthy_def split: option.splits)
  next
    case True
    then obtain p where p: "inheritsFrom d = Some p" "p \<noteq> []"
      by (auto simp: truthy_def split: option.splits)
    with Suc.prems(1) f ld obtain s2 pd where
      r: "install_version e depth p s1 = Inr s2" and
      lp: "load_descriptor s2 (version_json_path e p) = Inr pd" and
      o: "install_own e v d pd s2 = Inr st'"
      by (auto split: sum.splits)
    have s2': "extends s2 st'" using o by (rule install_own_extends)
    then have s22: "extends s2 st2" using Suc.prems(2) by (rule extends_trans)
    from Suc.IH [OF r s22] obtain sa where
      sa: "install_version e2 depth p st2 = Inr sa" "extends st2 sa" "fetches sa = fetches st2"
      by blast
    have "extends s2 sa" using s22 sa(2) by (rule extends_trans)
    from load_descriptor_extends [OF lp this] obtain pd' where
      lp2: "load_descriptor sa (version_json_path e2 p) = Inr pd'" and
      pp: "pd' = pd \<or> pd' = pd\<lparr>skinVersion := Some True\<rparr>"
      by (auto simp: same_setup_paths(5) [OF ss])
    have "extends st' sa" using Suc.prems(2) sa(2) by (rule extends_trans)
    from install_own_rerun [OF o this ss] obtain st3 where
      st3: "install_own e2 v d pd sa = Inr st3" "extends sa st3" "fetches st3 = fetches sa"
      by blast
    have "install_own e2 v d' pd' sa = install_own e2 v d pd sa"
      using dd pp by (rule install_own_skinVersion)
    moreover have "extends st2 st3" using sa(2) st3(2) by (rule extends_trans)
    ultimately show ?thesis
      using f2 ld2 inh p sa lp2 st3 by auto
  qed
qed


section \<open>A second run fetches nothing\<close>

lemmas path_defs = path_join_def VERSIONS_DIR_def ASSETS_DIR_def LIBRARIES_DIR_def
  version_folder_def version_json_path_def version_jar_path_def asset_path_def index_path_def
  asset_url_def ASSET_BASE_URL_def LIBRARIES_BASE_URL_def

lemmas install_defs = fetch_version_json_def load_descriptor_def install_own_def
  install_client_jar_def install_library_def install_library_artifact_def
  install_library_natives_def extract_natives_def native_key_def artifact_url_def
  str_replace.simps
  merged_libraries_def get_libraries_def install_asset_index_def asset_index_info_def
  install_asset_def patch_skinVersion_def fetch_if_missing_def download_file_def isfile_def
  rules_allow_def rule_allows_def current_os_def IS_MAC_def

lemmas demo_defs = demo_env_def demo_state_def demo_net_def demo_index_def base_descriptor_def
  child_descriptor_def lib_plain_def lib_native_def lib_child_def example_rules_def
  mac_host_def no_parent_def

lemma numeral_2_Suc: "2 = Suc (Suc 0)"
  by simp

text \<open>
  The small installation, run once with \<^verbatim>\<open>Cat4k.py\<close>: seven fetches, the parent's
  artifacts first, then the one library the child adds.
\<close>

lemma demo_run:
  "\<exists>st'. install_version (demo_env Cat4k) 2 ''child'' demo_state = Inr st' \<and>
     length (fetches st') = 7 \<and>
     fst (last (fetches st')) = ''https://maven/f.jar''"
  by (simp add: numeral_2_Suc path_defs install_defs demo_defs)



section \<open>Asset objects\<close>

lemma ASSETS_DIR_last: "ASSETS_DIR e \<noteq> [] \<and> last (ASSETS_DIR e) = CHR ''s''"
  by (simp add: ASSETS_DIR_def path_join_def)

lemma hex_string_no_slash: "hex_string h \<Longrightarrow> c \<in> set h \<Longrightarrow> c \<noteq> CHR ''/''"
  by (auto simp: hex_string_def list_all_iff)

lemma asset_path_shape:
  assumes "hex_string h"
  shows "asset_path e h = ASSETS_DIR e @ ''/objects/'' @ take 2 h @ ''/'' @ h"
proof -
  from assms have ne: "h \<noteq> []" by (simp add: hex_string_def)
  then have hd: "hd h \<noteq> CHR ''/''"
    using hex_string_no_slash [OF assms, of "hd h"] by simp
  have t: "take 2 h \<noteq> []" "hd (take 2 h) = hd h"
    using ne by (cases h; simp)+
  have "last (take 2 h) \<in> set h"
    using t(1) by (metis in_set_takeD last_in_set)
  then have l: "last (take 2 h) \<noteq> CHR ''/''"
    using hex_string_no_slash [OF assms] by blast
  have o: "path_join (ASSETS_DIR e) ''objects'' = ASSETS_DIR e @ ''/objects''"
    using ASSETS_DIR_last [of e] by (simp add: path_join_def)
  show ?thesis
    unfolding asset_path_def o
    using ne hd t l by (simp add: path_join_def)
qed








section \<open>The skinVersion patch\<close>

lemma install_own_patch:
  assumes "install_own e v d pd st = Inr st'"
  shows "\<exists>s3. extends st s3 \<and> st' = patch_skinVersion e (version_json_path e v) s3"
proof -
  from assms obtain s1 s2 s3 where
    j: "install_client_jar e v d st = Inr s1" and
    l: "install_libraries e v (merged_libraries d pd) s1 = Inr s2" and
    a: "install_asset_index e d pd s2 = Inr s3" and
    p: "st' = patch_skinVersion e (version_json_path e v) s3"
    by (auto simp: install_own_def split: sum.splits)
  have "extends st s1" using j by (rule install_client_jar_extends)
  moreover have "extends s1 s2" using l by (rule install_libraries_extends)
  moreover have "extends s2 s3" using a by (rule install_asset_index_extends)
  ultimately have "extends st s3" by (blast intro: extends_trans)
  with p show ?thesis by blast
qed

lemma install_version_patch:
  assumes "install_version e depth v st = Inr st'"
  shows "\<exists>s1 d s3. fetch_version_json e v st = Inr s1 \<and>
           load_descriptor s1 (version_json_path e v) = Inr d \<and>
           extends s1 s3 \<and> st' = patch_skinVersion e (version_json_path e v) s3"
proof (cases depth)
  case 0
  with assms show ?thesis by simp
next
  case (Suc n)
  with assms obtain s1 d where
    f: "fetch_version_json e v st = Inr s1" and
    ld: "load_descriptor s1 (version_json_path e v) = Inr d"
    by (auto split: sum.splits)
  show ?thesis
  proof (cases "truthy (inheritsFrom d)")
    case False
    with assms Suc f ld have "install_own e v d no_parent s1 = Inr st'"
      by (auto simp: truthy_def split: option.splits)
    from install_own_patch [OF this] f ld show ?thesis by blast
  next
    case True
    then obtain p where p: "inheritsFrom d = Some p" "p \<noteq> []"
      by (auto simp: truthy_def split: option.splits)
    with assms Suc f ld obtain s2 pd where
      r: "install_version e n p s1 = Inr s2" and
      o: "install_own e v d pd s2 = Inr st'"
      by (auto split: sum.splits)
    have "extends s1 s2" using r by (rule install_version_extends)
    with install_own_patch [OF o] f ld show ?thesis
      by (blast intro: extends_trans)
  qed
qed

lemma patch_skinVersion_result:
  assumes "which e \<noteq> Client" "files s3 p = Some (Descriptor dd)"
    "dd = d \<or> dd = d\<lparr>skinVersion := Some True\<rparr>"
  shows "\<exists>d'. files (patch_skinVersion e p s3) p = Some (Descriptor d') \<and>
           (d' = d \<or> d' = d\<lparr>skinVersion := Some True\<rparr>) \<and>
           (writable e p \<longrightarrow> d' = d\<lparr>skinVersion := Some True\<rparr>)"
proof (cases "writable e p \<and> skinVersion dd \<noteq> Some True")
  case True
  with assms show ?thesis
    by (auto simp: patch_skinVersion_def)
next
  case False
  then have "files (patch_skinVersion e p s3) p = Some (Descriptor dd)"
    using assms(1,2) by (auto simp: patch_skinVersion_def)
  moreover have "writable e p \<longrightarrow> dd = d\<lparr>skinVersion := Some True\<rparr>"
    using False assms(3) by auto
  ultimately show ?thesis using assms(3) by blast
qed


text \<open>
  C9, amended. A run of \<^verbatim>\<open>install_version\<close> of \<^verbatim>\<open>CAT2.1.X.py\<close> or \<^verbatim>\<open>Cat4k.py\<close>
  that returned has read a descriptor \<open>d\<close> for the version (from disk, or fetched) and
  leaves at its path either \<open>d\<close> or \<open>d\<close> with \<^verbatim>\<open>skinVersion\<close> set; when the file
  can be opened for writing it leaves \<open>d\<close> with \<^verbatim>\<open>skinVersion = true\<close>, which is
  \<open>d\<close> itself exactly when \<open>d\<close> carried \<^verbatim>\<open>skinVersion = true\<close> already.
\<close>

theorem skinVersion_after_install:
  assumes "which e \<noteq> Client" and "install_version e depth version_id st = Inr st'"
  shows "\<exists>s1 d d'.
           fetch_version_json e version_id st = Inr s1 \<and>
           load_descriptor s1 (version_json_path e version_id) = Inr d \<and>
           files st' (version_json_path e version_id) = Some (Descriptor d') \<and>
           (d' = d \<or> d' = d\<lparr>skinVersion := Some True\<rparr>) \<and>
           (writable e (version_json_path e version_id) \<longrightarrow>
              d' = d\<lparr>skinVersion := Some True\<rparr> \<and> skinVersion d' = Some True \<and>
              (d' = d \<longleftrightarrow> skinVersion d = Some True))"
proof -
  from install_version_patch [OF assms(2)] obtain s1 d s3 where
    f: "fetch_version_json e version_id st = Inr s1" and
    ld: "load_descriptor s1 (version_json_path e version_id) = Inr d" and
    ex: "extends s1 s3" and
    st': "st' = patch_skinVersion e (version_json_path e version_id) s3"
    by blast
  from load_descriptor_extends [OF ld ex] obtain dd where
    dd: "files s3 (version_json_path e version_id) = Some (Descriptor dd)"
      "dd = d \<or> dd = d\<lparr>skinVersion := Some True\<rparr>"
    by (auto simp: load_descriptor_def split: option.splits content.splits)
  from patch_skinVersion_result [OF assms(1) dd] obtain d' where
    d': "files st' (version_json_path e version_id) = Some (Descriptor d')"
      "d' = d \<or> d' = d\<lparr>skinVersion := Some True\<rparr>"
      "writable e (version_json_path e version_id) \<longrightarrow> d' = d\<lparr>skinVersion := Some True\<rparr>"
    unfolding st' by blast
  have "d\<lparr>skinVersion := Some True\<rparr> = d \<longleftrightarrow> skinVersion d = Some True"
    by (metis version_data.select_convs(9) version_data.surjective version_data.update_convs(9))
  with d' f ld show ?thesis by auto
qed

theorem skinVersion_after_install_witness:
  "which (demo_env Cat4k) \<noteq> Client \<and>
   writable (demo_env Cat4k) ''/mc/versions/child/child.json'' \<and>
   skinVersion child_descriptor \<noteq> Some True \<and>
   (\<exists>st'. install_version (demo_env Cat4k) 2 ''child'' demo_state = Inr st' \<and>
      files st' ''/mc/versions/child/child.json'' =
        Some (Descriptor (child_descriptor\<lparr>skinVersion := Some True\<rparr>)))"
proof -
  have w: "which (demo_env Cat4k) \<noteq> Client"
    by (simp add: demo_env_def)
  have p: "version_json_path (demo_env Cat4k) ''child'' = ''/mc/versions/child/child.json''"
    by (simp add: path_defs demo_env_def)
  have wr: "writable (demo_env Cat4k) ''/mc/versions/child/child.json''"
    by (simp add: demo_env_def)
  have s: "skinVersion child_descriptor \<noteq> Some True"
    by (simp add: child_descriptor_def no_parent_def)
  have f: "fetch_version_json (demo_env Cat4k) ''child'' demo_state = Inr demo_state"
    by (simp add: fetch_version_json_def isfile_def p demo_state_def)
  have l: "load_descriptor demo_state ''/mc/versions/child/child.json'' = Inr child_descriptor"
    by (simp add: load_descriptor_def demo_state_def)
  from demo_run obtain st' where
    r: "install_version (demo_env Cat4k) 2 ''child'' demo_state = Inr st'"
    by auto
  from skinVersion_after_install [OF w r] obtain s1 d d' where
    "fetch_version_json (demo_env Cat4k) ''child'' demo_state = Inr s1"
    "load_descriptor s1 (version_json_path (demo_env Cat4k) ''child'') = Inr d"
    "files st' (version_json_path (demo_env Cat4k) ''child'') = Some (Descriptor d')"
    "writable (demo_env Cat4k) (version_json_path (demo_env Cat4k) ''child'') \<longrightarrow>
       d' = d\<lparr>skinVersion := Some True\<rparr>"
    by auto
  with f l wr have
    "files st' ''/mc/versions/child/child.json'' =
        Some (Descriptor (child_descriptor\<lparr>skinVersion := Some True\<rparr>))"
    by (simp add: p)
  with r have "\<exists>st'. install_version (demo_env Cat4k) 2 ''child'' demo_state = Inr st' \<and>
      files st' ''/mc/versions/child/child.json'' =
        Some (Descriptor (child_descriptor\<lparr>skinVersion := Some True\<rparr>))"
    by (intro exI conjI)
  with w wr s show ?thesis by (intro conjI)
qed


lemmas skinned_defs = skinned_env_def skinned_descriptor_def empty_state_def mac_host_def
  no_parent_def


text \<open>
  C9, as stated, fails. A descriptor that the network serves with
  \<^verbatim>\<open>skinVersion = true\<close> is stored and left as fetched by \<^verbatim>\<open>Cat4k.py\<close> and by
  \<^verbatim>\<open>CAT2.1.X.py\<close>: the stored file is the fetched one. And where the descriptor
  cannot be opened for writing, the run returns all the same and the descriptor still
  has no \<^verbatim>\<open>skinVersion\<close>.
\<close>

theorem skinVersion_patch_not_always:
  "(\<exists>st'. install_version (skinned_env Cat4k) 1 ''s'' empty_state = Inr st' \<and>
      files st' ''/mc/versions/s/s.json'' = net (skinned_env Cat4k) ''https://meta/s.json'' \<and>
      fetches st' = [(''https://meta/s.json'', ''/mc/versions/s/s.json'')]) \<and>
   (\<exists>st'. install_version (skinned_env CAT21X) 1 ''s'' empty_state = Inr st' \<and>
      files st' ''/mc/versions/s/s.json'' = net (skinned_env CAT21X) ''https://meta/s.json'') \<and>
   (\<exists>st'. install_version ((offline_env Cat4k)\<lparr>writable := (\<lambda>p. False)\<rparr>) 1 ''plain''
             plain_state = Inr st' \<and>
      files st' ''/mc/versions/plain/plain.json'' = Some (Descriptor no_parent) \<and>
      skinVersion no_parent = None)"
proof (intro conjI)
  show "\<exists>st'. install_version (skinned_env Cat4k) 1 ''s'' empty_state = Inr st' \<and>
      files st' ''/mc/versions/s/s.json'' = net (skinned_env Cat4k) ''https://meta/s.json'' \<and>
      fetches st' = [(''https://meta/s.json'', ''/mc/versions/s/s.json'')]"
    by (simp add: path_defs install_defs skinned_defs)
  show "\<exists>st'. install_version (skinned_env CAT21X) 1 ''s'' empty_state = Inr st' \<and>
      files st' ''/mc/versions/s/s.json'' = net (skinned_env CAT21X) ''https://meta/s.json''"
    by (simp add: path_defs install_defs skinned_defs)
  show "\<exists>st'. install_version ((offline_env Cat4k)\<lparr>writable := (\<lambda>p. False)\<rparr>) 1 ''plain''
             plain_state = Inr st' \<and>
      files st' ''/mc/versions/plain/plain.json'' = Some (Descriptor no_parent) \<and>
      skinVersion no_parent = None"
    by (simp add: path_defs install_defs offline_env_def plain_state_def mac_host_def
        no_parent_def)
qed


section \<open>Inheritance that never ends\<close>

lemma descriptor_source_after_fetch:
  assumes "fetch_version_json e v st = Inr s1" "descriptor_source e s1 w = Some d"
  shows "descriptor_source e st w = Some d \<or> descriptor_source e st v = Some d"
proof (cases "isfile st (version_json_path e v)")
  case True
  with assms show ?thesis by (simp add: fetch_version_json_def)
next
  case False
  with assms(1) obtain url c where
    u: "all_versions e v = Some url" "net e url = Some c" and
    s1: "files s1 = (files st)(version_json_path e v \<mapsto> c)"
    by (auto simp: fetch_version_json_def split: option.splits dest!: download_file_Inr)
  from False have none: "files st (version_json_path e v) = None"
    by (simp add: isfile_def)
  show ?thesis
  proof (cases "version_json_path e w = version_json_path e v")
    case True
    with assms(2) s1 have "c = Descriptor d"
      by (auto simp: descriptor_source_def split: content.splits)
    with u none have "descriptor_source e st v = Some d"
      by (simp add: descriptor_source_def)
    then show ?thesis ..
  next
    case False
    with assms(2) s1 have "descriptor_source e st w = Some d"
      by (simp add: descriptor_source_def)
    then show ?thesis ..
  qed
qed

lemma inheritance_closed_after_fetch:
  assumes "inheritance_closed e st S" "v \<in> S" "fetch_version_json e v st = Inr s1"
  shows "inheritance_closed e s1 S"
  unfolding inheritance_closed_def
proof (intro ballI allI impI)
  fix w d
  assume w: "w \<in> S" and d: "descriptor_source e s1 w = Some d"
  from descriptor_source_after_fetch [OF assms(3) d]
  show "\<exists>p. inheritsFrom d = Some p \<and> p \<noteq> [] \<and> p \<in> S"
    using assms(1,2) w by (auto simp: inheritance_closed_def)
qed

lemma load_descriptor_source:
  "load_descriptor st (version_json_path e v) = Inr d \<Longrightarrow> descriptor_source e st v = Some d"
  by (auto simp: load_descriptor_def descriptor_source_def split: option.splits content.splits)

lemma inheritance_closed_never_installs:
  "inheritance_closed e st S \<Longrightarrow> v \<in> S \<Longrightarrow> \<exists>err. install_version e depth v st = Inl err"
proof (induction depth arbitrary: st v)
  case 0
  then show ?case by simp
next
  case (Suc depth)
  show ?case
  proof (cases "fetch_version_json e v st")
    case (Inl x)
    then show ?thesis by simp
  next
    case (Inr s1)
    have cl: "inheritance_closed e s1 S"
      using Suc.prems Inr by (rule inheritance_closed_after_fetch)
    show ?thesis
    proof (cases "load_descriptor s1 (version_json_path e v)")
      case (Inl x)
      with Inr show ?thesis by simp
    next
      case ld: (Inr d)
      then have "descriptor_source e s1 v = Some d" by (rule load_descriptor_source)
      with cl Suc.prems(2) obtain p where p: "inheritsFrom d = Some p" "p \<noteq> []" "p \<in> S"
        by (auto simp: inheritance_closed_def)
      from Suc.IH [OF cl p(3)] obtain err where "install_version e depth p s1 = Inl err" ..
      with Inr ld p show ?thesis by simp
    qed
  qed
qed

lemma cycle_on_disk_exhausts_stack:
  "cycle_on_disk e st S \<Longrightarrow> v \<in> S \<Longrightarrow> install_version e depth v st = Inl RecursionError"
proof (induction depth arbitrary: v)
  case 0
  then show ?case by simp
next
  case (Suc depth)
  from Suc.prems obtain d p where
    d: "files st (version_json_path e v) = Some (Descriptor d)" and
    p: "inheritsFrom d = Some p" "p \<noteq> []" "p \<in> S"
    unfolding cycle_on_disk_def by blast
  have f: "fetch_version_json e v st = Inr st"
    using d by (simp add: fetch_version_json_def isfile_def)
  have l: "load_descriptor st (version_json_path e v) = Inr d"
    using d by (simp add: load_descriptor_def)
  have "install_version e depth p st = Inl RecursionError"
    using Suc.prems(1) p(3) by (rule Suc.IH)
  with f l p show ?case by simp
qed

lemma loop_cycle_on_disk: "cycle_on_disk (offline_env v) loop_state {''loop''}"
  by (simp add: cycle_on_disk_def path_defs offline_env_def loop_state_def no_parent_def)

lemma pingpong_closed:
  "inheritance_closed (pingpong_env v) pingpong_state {''ping'', ''pong''}"
  by (simp add: inheritance_closed_def descriptor_source_def path_defs pingpong_env_def
      pingpong_state_def no_parent_def)






section \<open>The download helper with retries\<close>

lemma download_loop_transient:
  assumes "attempt < retries" "transient (tr attempt)"
  shows "\<exists>st'. download_loop tr url dest retries attempt st =
           download_loop tr url dest retries (Suc attempt) st' \<and>
         slept st' = slept st @ [2 ^ Suc attempt]"
proof (cases "tr attempt")
  case (Transferred c)
  with assms(2) show ?thesis by (simp add: transient_def)
next
  case HTTPError
  with assms(1) show ?thesis
    by (subst download_loop.simps) (simp, metis disk.select_convs(2) disk.surjective disk.update_convs(2))
next
  case PermissionError
  with assms(2) show ?thesis by (simp add: transient_def)
next
  case OtherException
  with assms(1) show ?thesis
    by (subst download_loop.simps) (simp, metis disk.select_convs(2) disk.surjective disk.update_convs(2))
next
  case (Interrupted c)
  with assms(1) have "download_loop tr url dest retries attempt st =
      download_loop tr url dest retries (Suc attempt)
        (st\<lparr>d_files := (d_files st)(dest \<mapsto> c), slept := slept st @ [2 ^ Suc attempt]\<rparr>)"
    by (subst download_loop.simps) simp
  moreover have "slept (st\<lparr>d_files := (d_files st)(dest \<mapsto> c),
      slept := slept st @ [2 ^ Suc attempt]\<rparr>) = slept st @ [2 ^ Suc attempt]"
    by simp
  ultimately show ?thesis by blast
qed


lemma download_loop_done:
  "attempt < retries \<Longrightarrow> tr attempt = Transferred c \<Longrightarrow>
   download_loop tr url dest retries attempt st =
     (Inr True, st\<lparr>d_files := (d_files st)(dest \<mapsto> c)\<rparr>)"
  by (subst download_loop.simps) simp

lemma download_loop_exhausted:
  "\<forall>k. attempt \<le> k \<and> k < retries \<longrightarrow> transient (tr k) \<Longrightarrow>
   \<exists>st'. download_loop tr url dest retries attempt st = (Inl (AttemptsExhausted url retries), st') \<and>
         slept st' = slept st @ map (\<lambda>k. 2 ^ Suc k) [attempt..<retries]"
proof (induction "retries - attempt" arbitrary: attempt st)
  case 0
  then have "\<not> attempt < retries" by simp
  then show ?case by (subst download_loop.simps) simp
next
  case (Suc n)
  then have lt: "attempt < retries" by simp
  with Suc.prems have tr: "transient (tr attempt)" by simp
  from download_loop_transient [of attempt retries tr url dest st, OF lt tr] obtain s1 where
    s1: "download_loop tr url dest retries attempt st =
           download_loop tr url dest retries (Suc attempt) s1"
      "slept s1 = slept st @ [2 ^ Suc attempt]"
    by (elim exE conjE)
  have n: "n = retries - Suc attempt" using Suc.hyps(2) by simp
  have later: "\<forall>k. Suc attempt \<le> k \<and> k < retries \<longrightarrow> transient (tr k)"
    using Suc.prems by simp
  from Suc.hyps(1) [OF n later, of s1] obtain st' where
    st': "download_loop tr url dest retries (Suc attempt) s1 =
        (Inl (AttemptsExhausted url retries), st')"
      "slept st' = slept s1 @ map (\<lambda>k. 2 ^ Suc k) [Suc attempt..<retries]"
    by (elim exE conjE)
  have "[attempt..<retries] = attempt # [Suc attempt..<retries]"
    using lt by (rule upt_conv_Cons)
  with s1 st' show ?case by simp
qed




section \<open>Accounts\<close>

lemma replace_first_None:
  "replace_first P acc xs = None \<longleftrightarrow> (\<forall>x \<in> set xs. \<not> P x)"
  by (induction xs) auto

lemma replace_first_Some:
  "replace_first P acc xs = Some ys \<Longrightarrow>
   \<exists>i < length xs. P (xs ! i) \<and> (\<forall>j < i. \<not> P (xs ! j)) \<and> ys = xs[i := acc]"
proof (induction xs arbitrary: ys)
  case Nil
  then show ?case by simp
next
  case (Cons x xs)
  show ?case
  proof (cases "P x")
    case True
    with Cons.prems have "ys = (x # xs)[0 := acc]" by simp
    with True show ?thesis by (intro exI [of _ 0]) simp
  next
    case False
    with Cons.prems obtain zs where zs: "replace_first P acc xs = Some zs" "ys = x # zs"
      by auto
    from Cons.IH [OF zs(1)] obtain i where
      i: "i < length xs" "P (xs ! i)" "\<forall>j < i. \<not> P (xs ! j)" "zs = xs[i := acc]"
      by blast
    have "\<forall>j < Suc i. \<not> P ((x # xs) ! j)"
      using False i(3) by (auto simp: less_Suc_eq_0_disj)
    with i zs(2) show ?thesis
      by (intro exI [of _ "Suc i"]) simp
  qed
qed

lemma same_account_key:
  "same_account ty u a \<longleftrightarrow> account_key a = (Some ty, Some u)"
  by (auto simp: same_account_def account_key_def)

lemma new_account_key: "account_key (new_account uuid3 ty u pw) = (Some ty, Some u)"
  by (simp add: account_key_def new_account_def)

lemma one_per_key_update:
  assumes "one_per_key xs" "i < length xs" "account_key acc = account_key (xs ! i)"
  shows "one_per_key (xs[i := acc])"
proof -
  have "map account_key (xs[i := acc]) = map account_key xs"
    using assms(2,3) by (simp add: map_update list_update_same_conv)
  with assms(1) show ?thesis by (simp add: one_per_key_def)
qed

lemma one_per_key_append:
  assumes "one_per_key xs" "account_key acc \<notin> set (map account_key xs)"
  shows "one_per_key (xs @ [acc])"
  using assms by (simp add: one_per_key_def)


text \<open>
  C10. On an account list with at most one record for each pair of type and username,
  \<^verbatim>\<open>add_account\<close> keeps that invariant; a pair that is in the list has its record
  replaced where it stands, the length unchanged; a new pair is appended as one record;
  an empty username changes nothing at all. The file holds the new list when the write
  goes through and is left alone when it does not.
\<close>

theorem add_account_one_per_key:
  assumes "one_per_key (accounts s)"
  shows "one_per_key (accounts (add_account uuid3 can_write ty u pw s)) \<and>
         (u \<noteq> [] \<and> (Some ty, Some u) \<in> set (map account_key (accounts s)) \<longrightarrow>
            length (accounts (add_account uuid3 can_write ty u pw s)) = length (accounts s) \<and>
            (\<exists>i < length (accounts s).
               account_key (accounts s ! i) = (Some ty, Some u) \<and>
               accounts (add_account uuid3 can_write ty u pw s) =
                 (accounts s)[i := new_account uuid3 ty u pw])) \<and>
         (u \<noteq> [] \<and> (Some ty, Some u) \<notin> set (map account_key (accounts s)) \<longrightarrow>
            accounts (add_account uuid3 can_write ty u pw s) =
              accounts s @ [new_account uuid3 ty u pw]) \<and>
         (u = [] \<longrightarrow> add_account uuid3 can_write ty u pw s = s) \<and>
         (u \<noteq> [] \<and> can_write \<longrightarrow>
            accounts_file (add_account uuid3 can_write ty u pw s) =
              Some (accounts (add_account uuid3 can_write ty u pw s))) \<and>
         (\<not> can_write \<longrightarrow>
            accounts_file (add_account uuid3 can_write ty u pw s) = accounts_file s)"
proof (cases "u = []")
  case True
  with assms show ?thesis by (simp add: add_account_def)
next
  case False
  let ?acc = "new_account uuid3 ty u pw"
  let ?r = "replace_first (same_account ty u) ?acc (accounts s)"
  show ?thesis
  proof (cases ?r)
    case None
    then have no: "(Some ty, Some u) \<notin> set (map account_key (accounts s))"
      by (auto simp: replace_first_None same_account_key)
    have res: "accounts (add_account uuid3 can_write ty u pw s) = accounts s @ [?acc]"
      using False None by (simp add: add_account_def save_accounts_def Let_def)
    have "one_per_key (accounts s @ [?acc])"
      using assms no by (intro one_per_key_append) (simp_all add: new_account_key)
    moreover have "can_write \<longrightarrow> accounts_file (add_account uuid3 can_write ty u pw s) =
        Some (accounts (add_account uuid3 can_write ty u pw s))"
      using False None by (simp add: add_account_def save_accounts_def Let_def)
    moreover have "\<not> can_write \<longrightarrow>
        accounts_file (add_account uuid3 can_write ty u pw s) = accounts_file s"
      using False None by (simp add: add_account_def save_accounts_def Let_def)
    ultimately show ?thesis using False no res by simp
  next
    case (Some ys)
    from replace_first_Some [OF Some] obtain i where
      i: "i < length (accounts s)" "same_account ty u (accounts s ! i)"
        "ys = (accounts s)[i := ?acc]"
      by blast
    have k: "account_key (accounts s ! i) = (Some ty, Some u)"
      using i(2) by (simp add: same_account_key)
    then have yes: "(Some ty, Some u) \<in> set (map account_key (accounts s))"
      using i(1) by (metis length_map nth_map nth_mem)
    have res: "accounts (add_account uuid3 can_write ty u pw s) = (accounts s)[i := ?acc]"
      using False Some i(3) by (simp add: add_account_def save_accounts_def Let_def)
    have "one_per_key ((accounts s)[i := ?acc])"
      using assms i(1) k by (intro one_per_key_update) (simp_all add: new_account_key)
    moreover have "can_write \<longrightarrow> accounts_file (add_account uuid3 can_write ty u pw s) =
        Some (accounts (add_account uuid3 can_write ty u pw s))"
      using False Some by (simp add: add_account_def save_accounts_def Let_def)
    moreover have "\<not> can_write \<longrightarrow>
        accounts_file (add_account uuid3 can_write ty u pw s) = accounts_file s"
      using False Some by (simp add: add_account_def save_accounts_def Let_def)
    ultimately show ?thesis using False yes res i(1) k by auto
  qed
qed

theorem add_account_one_per_key_witness:
  "one_per_key (accounts demo_accounts) \<and>
   one_per_key (accounts (add_account demo_uuid3 True ''tlauncher'' ''bob'' (Some ''pw'')
                            demo_accounts)) \<and>
   accounts (add_account demo_uuid3 True ''tlauncher'' ''bob'' (Some ''pw'') demo_accounts) =
     [accounts demo_accounts ! 0, new_account demo_uuid3 ''tlauncher'' ''bob'' (Some ''pw'')] \<and>
   accounts (add_account demo_uuid3 True ''microsoft'' ''eve'' None demo_accounts) =
     accounts demo_accounts @ [new_account demo_uuid3 ''microsoft'' ''eve'' None] \<and>
   add_account demo_uuid3 True ''offline'' '''' None demo_accounts = demo_accounts"
proof -
  have inv: "one_per_key (accounts demo_accounts)"
    by (simp add: one_per_key_def account_key_def demo_accounts_def)
  note t = add_account_one_per_key [OF inv]
  have a: "one_per_key (accounts (add_account demo_uuid3 True ''tlauncher'' ''bob'' (Some ''pw'')
                            demo_accounts))"
    using t [of demo_uuid3 True "''tlauncher''" "''bob''" "Some ''pw''"] by (rule conjunct1)
  have b: "accounts (add_account demo_uuid3 True ''tlauncher'' ''bob'' (Some ''pw'')
             demo_accounts) =
     [accounts demo_accounts ! 0, new_account demo_uuid3 ''tlauncher'' ''bob'' (Some ''pw'')]"
    by (simp add: add_account_def save_accounts_def Let_def same_account_def demo_accounts_def)
  have c: "accounts (add_account demo_uuid3 True ''microsoft'' ''eve'' None demo_accounts) =
     accounts demo_accounts @ [new_account demo_uuid3 ''microsoft'' ''eve'' None]"
    by (simp add: add_account_def save_accounts_def Let_def same_account_def demo_accounts_def)
  have d: "add_account demo_uuid3 True ''offline'' '''' None demo_accounts = demo_accounts"
    using t [of demo_uuid3 True "''offline''" "''''" None] by simp
  from inv a b c d show ?thesis by (intro conjI)
qed


section \<open>Merging a version with its parent\<close>

lemma or_empty_simps: "or_empty None = []" "or_empty (Some xs) = xs"
  by (simp_all add: or_empty_def)

lemma install_libraries_append:
  "install_libraries e v (xs @ ys) st =
     (case install_libraries e v xs st of
        Inl x \<Rightarrow> Inl x
      | Inr st1 \<Rightarrow> install_libraries e v ys st1)"
  by (induction xs arbitrary: st) (auto split: sum.splits)

lemmas launch_defs = raw_jvm_args_def raw_game_args_def get_jvm_def get_game_def or_empty_def
  merged_libraries_def get_libraries_def child_descriptor_def base_descriptor_def no_parent_def








section \<open>Placeholders\<close>

lemmas format_defs = launch_game_args_def replacements_def replacement_table_def table_key_def
  game_arg_def literal_kwargs_def str_format_def lookup_field_def is_digit_def
  assets_index_name_def asset_index_info_def steve_def demo_launch_def


text \<open>
  C7 on the code. With the game arguments \<^verbatim>\<open>--username ${auth_player_name}\<close> and the
  account of Steve, \<^verbatim>\<open>launch_game\<close> of \<^verbatim>\<open>Client.py\<close> and of \<^verbatim>\<open>CAT2.1.X.py\<close>
  raises \<^verbatim>\<open>KeyError('auth_player_name')\<close>: \<^verbatim>\<open>format\<close> looks the field
  \<^verbatim>\<open>auth_player_name\<close> up, and the table has it under \<^verbatim>\<open>${auth_player_name}\<close>.
  \<^verbatim>\<open>Cat4k.py\<close>, whose table is keyed by the bare names, builds the argument
  \<^verbatim>\<open>$Steve\<close>.
\<close>

theorem placeholder_KeyError:
  "launch_game_args Client steve demo_launch base_descriptor no_parent =
     Inl (FKeyError ''auth_player_name'') \<and>
   launch_game_args CAT21X steve demo_launch base_descriptor no_parent =
     Inl (FKeyError ''auth_player_name'') \<and>
   launch_game_args Cat4k steve demo_launch base_descriptor no_parent =
     Inr [''--username'', ''$Steve'']"
  by (simp add: format_defs launch_defs sublist_code)

end
